theory Spec2Isabelle
  imports Complex_Main "HOL-Library.Word"
begin

section \<open>Data model\<close>

text \<open>
  The embedding follows \<^verbatim>\<open>src/media_input.cpp\<close>. A C++ \<^verbatim>\<open>int\<close> is an \<^typ>\<open>int\<close> (stream
  indices and counts stay far from the 32-bit bounds), \<^verbatim>\<open>size_t\<close> a \<^typ>\<open>nat\<close>, and
  \<^verbatim>\<open>int64_t\<close> a \<^typ>\<open>64 word\<close> read in two's complement. A member \<^verbatim>\<open>_x\<close> of
  \<^verbatim>\<open>media_input\<close> is the record field \<open>m_x\<close>; the local variable \<^verbatim>\<open>o\<close> of the source
  is \<open>ob\<close>, and \<^verbatim>\<open>open\<close> and \<^verbatim>\<open>close\<close> are \<open>media_input_open\<close> and
  \<open>media_input_close\<close>.
\<close>

type_synonym int64 = "64 word"

text \<open>
  \<^verbatim>\<open>float\<close>, as far as the comparisons \<^verbatim>\<open><=\<close>, \<^verbatim>\<open>>=\<close> and \<^verbatim>\<open>==\<close> see it: a NaN, an
  infinity, or a finite value (the two zeros are one value, as they compare equal).
\<close>

datatype cfloat = NaN | MInf | Fin rat | PInf

fun float_le :: "cfloat \<Rightarrow> cfloat \<Rightarrow> bool" where
  "float_le NaN y = False"
| "float_le x NaN = False"
| "float_le MInf y = True"
| "float_le x PInf = True"
| "float_le PInf y = False"
| "float_le x MInf = False"
| "float_le (Fin a) (Fin b) = (a \<le> b)"

definition float_ge :: "cfloat \<Rightarrow> cfloat \<Rightarrow> bool" where
  "float_ge x y = float_le y x"

definition float_eq :: "cfloat \<Rightarrow> cfloat \<Rightarrow> bool" where
  "float_eq x y = (x \<noteq> NaN \<and> y \<noteq> NaN \<and> x = y)"

text \<open>\<^verbatim>\<open>video_frame::stereo_layout_t\<close>; \<^verbatim>\<open>mono\<close> is renamed, the name being taken in HOL.\<close>

datatype stereo_layout_t =
  mono_layout | separate | top_bottom | top_bottom_half | left_right | left_right_half
  | even_odd_rows

text \<open>
  Modelled from the spec: the class \<^verbatim>\<open>video_frame\<close> is declared outside src/. The fields are
  those the source file reads and writes; the enumerations \<^verbatim>\<open>layout\<close>, \<^verbatim>\<open>color_space\<close>,
  \<^verbatim>\<open>value_range\<close> and \<^verbatim>\<open>chroma_location\<close>, whose declarations are missing, are their integer
  codes; \<^verbatim>\<open>data[2][3]\<close> and \<^verbatim>\<open>line_size[2][3]\<close> are functions of the view and the plane
  (only views 0, 1 and planes 0, 1, 2 exist), a pointer being its address; \<open>valid\<close> is the
  validity flag of the spec's data model, which \<^verbatim>\<open>is_valid()\<close> reads.
\<close>

record video_frame =
  raw_width :: int
  raw_height :: int
  width :: int
  height :: int
  aspect_ratio :: cfloat
  layout :: int
  color_space :: int
  value_range :: int
  chroma_location :: int
  stereo_layout :: stereo_layout_t
  stereo_layout_swap :: bool
  data :: "nat \<Rightarrow> nat \<Rightarrow> nat"
  line_size :: "nat \<Rightarrow> nat \<Rightarrow> nat"
  presentation_time :: int64
  valid :: bool

definition is_valid :: "video_frame \<Rightarrow> bool" where
  "is_valid f = valid f"

text \<open>
  Modelled from the spec: the default-constructed \<^verbatim>\<open>video_frame()\<close>, of which the spec fixes
  that it is the invalid frame.
\<close>

definition video_frame_default :: video_frame where
  "video_frame_default =
     \<lparr> raw_width = - 1, raw_height = - 1, width = - 1, height = - 1, aspect_ratio = Fin 0,
       layout = 0, color_space = 0, value_range = 0, chroma_location = 0,
       stereo_layout = mono_layout, stereo_layout_swap = False,
       data = (\<lambda>v p. 0), line_size = (\<lambda>v p. 0), presentation_time = 0, valid = False \<rparr>"

text \<open>
  Modelled from the spec: the class \<^verbatim>\<open>audio_blob\<close> is declared outside src/ (channel layout,
  sample format, sample rate, validity).
\<close>

record audio_blob =
  channels :: int
  rate :: int
  sample_format :: int
  blob_valid :: bool

definition audio_blob_default :: audio_blob where
  "audio_blob_default = \<lparr> channels = - 1, rate = - 1, sample_format = 0, blob_valid = False \<rparr>"

text \<open>
  Modelled from the spec: the class \<^verbatim>\<open>media_object\<close> (the spec's MediaSource) is declared
  outside src/. A source has a URL, tags, and per local stream index a format template, a
  duration, an activation flag and, for video, a frame rate; it has a current position.
\<close>

record video_stream =
  video_template :: video_frame
  video_duration_us :: int64
  frame_rate_numerator :: int
  frame_rate_denominator :: int
  video_active :: bool

record audio_stream =
  audio_template :: audio_blob
  audio_duration_us :: int64
  audio_active :: bool

record media_object =
  url :: string
  tag_pairs :: "(string \<times> string) list"
  video :: "video_stream list"
  audio :: "audio_stream list"
  position :: int64

definition media_object_default :: media_object where
  "media_object_default = \<lparr> url = [], tag_pairs = [], video = [], audio = [], position = 0 \<rparr>"

record media_input =
  m_media_objects :: "media_object list"
  m_id :: string
  m_tag_names :: "string list"
  m_tag_values :: "string list"
  m_video_stream_names :: "string list"
  m_audio_stream_names :: "string list"
  m_supports_stereo_layout_separate :: bool
  m_active_video_stream :: int
  m_active_audio_stream :: int
  m_initial_skip :: int64
  m_duration :: int64
  m_video_frame :: video_frame
  m_audio_blob :: audio_blob

text \<open>
  Failures. An \<^verbatim>\<open>assert\<close> that does not hold aborts (\<open>Assertion_failed\<close>, the build
  without \<^verbatim>\<open>NDEBUG\<close>); an index outside a vector or outside a source's streams and the read
  of an \<^verbatim>\<open>int\<close> that was never written are undefined in C++ and are failures here;
  \<open>Source_open_failed\<close> is the exception that leaves \<^verbatim>\<open>media_input::open\<close> when a
  source cannot be opened, with the state the instance is left in.
\<close>

datatype error =
  Assertion_failed | Out_of_range | Uninitialised_read | Source_open_failed media_input

definition and_then :: "error + 'a \<Rightarrow> ('a \<Rightarrow> error + 'b) \<Rightarrow> error + 'b" where
  "and_then r f = (case r of Inl e \<Rightarrow> Inl e | Inr x \<Rightarrow> f x)"

fun for_each :: "('a \<Rightarrow> error + unit) \<Rightarrow> 'a list \<Rightarrow> error + unit" where
  "for_each f [] = Inr ()"
| "for_each f (x # xs) = (case f x of Inl e \<Rightarrow> Inl e | Inr u \<Rightarrow> for_each f xs)"

text \<open>
  The collaborators of \<^verbatim>\<open>media_input\<close> whose code is outside src/ and whose results the
  source file only passes on are parameters: opening a source (\<open>None\<close> when it throws),
  \<^verbatim>\<open>str::to<int64_t>\<close> (\<open>None\<close> when it throws), \<^verbatim>\<open>str::from\<close>, the \<^verbatim>\<open>format_info()\<close>
  of a template, \<^verbatim>\<open>video_frame::set_view_dimensions\<close>, and the blocking end of a read of one
  video stream of a source.
\<close>

record externals =
  media_object_open :: "media_object \<Rightarrow> string \<Rightarrow> media_object option"
  str_to_int64 :: "string \<Rightarrow> int64 option"
  str_from :: "nat \<Rightarrow> string"
  video_format_info :: "video_frame \<Rightarrow> string"
  audio_format_info :: "audio_blob \<Rightarrow> string"
  set_view_dimensions :: "video_frame \<Rightarrow> video_frame"
  media_object_finish_video_frame_read :: "media_object \<Rightarrow> int \<Rightarrow> video_frame \<times> media_object"

section \<open>The source's interface\<close>

text \<open>Modelled from the spec: the accessors of \<^verbatim>\<open>media_object\<close>, range-checked.\<close>

definition media_object_video_streams :: "media_object \<Rightarrow> int" where
  "media_object_video_streams m = int (length (video m))"

definition media_object_audio_streams :: "media_object \<Rightarrow> int" where
  "media_object_audio_streams m = int (length (audio m))"

definition video_stream_at :: "media_object \<Rightarrow> int \<Rightarrow> error + video_stream" where
  "video_stream_at m j =
     (if 0 \<le> j \<and> j < media_object_video_streams m then Inr (video m ! nat j) else Inl Out_of_range)"

definition audio_stream_at :: "media_object \<Rightarrow> int \<Rightarrow> error + audio_stream" where
  "audio_stream_at m j =
     (if 0 \<le> j \<and> j < media_object_audio_streams m then Inr (audio m ! nat j) else Inl Out_of_range)"

definition media_object_video_frame_template :: "media_object \<Rightarrow> int \<Rightarrow> error + video_frame" where
  "media_object_video_frame_template m j = and_then (video_stream_at m j) (\<lambda>s. Inr (video_template s))"

definition media_object_audio_blob_template :: "media_object \<Rightarrow> int \<Rightarrow> error + audio_blob" where
  "media_object_audio_blob_template m j = and_then (audio_stream_at m j) (\<lambda>s. Inr (audio_template s))"

definition media_object_video_frame_rate_numerator :: "media_object \<Rightarrow> int \<Rightarrow> error + int" where
  "media_object_video_frame_rate_numerator m j =
     and_then (video_stream_at m j) (\<lambda>s. Inr (frame_rate_numerator s))"

definition media_object_video_frame_rate_denominator :: "media_object \<Rightarrow> int \<Rightarrow> error + int" where
  "media_object_video_frame_rate_denominator m j =
     and_then (video_stream_at m j) (\<lambda>s. Inr (frame_rate_denominator s))"

definition video_stream_set_active :: "media_object \<Rightarrow> nat \<Rightarrow> bool \<Rightarrow> media_object" where
  "video_stream_set_active m j b = m\<lparr>video := (video m)[j := (video m ! j)\<lparr>video_active := b\<rparr>]\<rparr>"

definition audio_stream_set_active :: "media_object \<Rightarrow> nat \<Rightarrow> bool \<Rightarrow> media_object" where
  "audio_stream_set_active m j b = m\<lparr>audio := (audio m)[j := (audio m ! j)\<lparr>audio_active := b\<rparr>]\<rparr>"

definition media_object_tell :: "media_object \<Rightarrow> int64" where
  "media_object_tell m = position m"

definition media_object_seek :: "media_object \<Rightarrow> int64 \<Rightarrow> media_object" where
  "media_object_seek m pos = m\<lparr>position := pos\<rparr>"

definition media_object_close :: "media_object \<Rightarrow> media_object" where
  "media_object_close m = media_object_default"

text \<open>\<^verbatim>\<open>_media_objects[i]\<close> for a computed index.\<close>

definition media_object_at :: "media_input \<Rightarrow> int \<Rightarrow> error + media_object" where
  "media_object_at st i =
     (if 0 \<le> i \<and> i < int (length (m_media_objects st)) then Inr (m_media_objects st ! nat i)
      else Inl Out_of_range)"

section \<open>media\_input\<close>

text \<open>The constructor; it does not initialise \<^verbatim>\<open>_supports_stereo_layout_separate\<close>, whose
  indeterminate value is the argument.\<close>

definition media_input_new :: "bool \<Rightarrow> media_input" where
  "media_input_new b =
     \<lparr> m_media_objects = [], m_id = [], m_tag_names = [], m_tag_values = [],
       m_video_stream_names = [], m_audio_stream_names = [],
       m_supports_stereo_layout_separate = b,
       m_active_video_stream = - 1, m_active_audio_stream = - 1,
       m_initial_skip = 0, m_duration = - 1,
       m_video_frame = video_frame_default, m_audio_blob = audio_blob_default \<rparr>"

text \<open>
  Modelled from the spec: \<^verbatim>\<open>media_input::video_streams()\<close> and \<^verbatim>\<open>audio_streams()\<close> are
  inline in the header, which is outside src/. Like \<^verbatim>\<open>tags()\<close> below, which is in the
  source file, they count the entries of the table that \<^verbatim>\<open>open\<close> fills with one name per
  flattened stream and \<^verbatim>\<open>close\<close> clears.
\<close>

definition video_streams :: "media_input \<Rightarrow> int" where
  "video_streams st = int (length (m_video_stream_names st))"

definition audio_streams :: "media_input \<Rightarrow> int" where
  "audio_streams st = int (length (m_audio_stream_names st))"

definition tags :: "media_input \<Rightarrow> nat" where
  "tags st = length (m_tag_names st)"

text \<open>
  The loop of \<^verbatim>\<open>get_video_stream\<close>, from source \<open>i\<close> on; \<open>None\<close> when it ends without
  writing the two results.
\<close>

fun get_video_stream_loop :: "media_object list \<Rightarrow> int \<Rightarrow> int \<Rightarrow> (int \<times> int) option" where
  "get_video_stream_loop [] i stream = None"
| "get_video_stream_loop (m # ms) i stream =
     (if media_object_video_streams m < stream + 1
      then get_video_stream_loop ms (i + 1) (stream - media_object_video_streams m)
      else Some (i, stream))"

definition get_video_stream :: "media_input \<Rightarrow> int \<Rightarrow> error + (int \<times> int)" where
  "get_video_stream st stream =
     (if \<not> stream < video_streams st then Inl Assertion_failed
      else case get_video_stream_loop (m_media_objects st) 0 stream of
             None \<Rightarrow> Inl Uninitialised_read
           | Some r \<Rightarrow> Inr r)"

fun get_audio_stream_loop :: "media_object list \<Rightarrow> int \<Rightarrow> int \<Rightarrow> (int \<times> int) option" where
  "get_audio_stream_loop [] i stream = None"
| "get_audio_stream_loop (m # ms) i stream =
     (if media_object_audio_streams m < stream + 1
      then get_audio_stream_loop ms (i + 1) (stream - media_object_audio_streams m)
      else Some (i, stream))"

definition get_audio_stream :: "media_input \<Rightarrow> int \<Rightarrow> error + (int \<times> int)" where
  "get_audio_stream st stream =
     (if \<not> stream < audio_streams st then Inl Assertion_failed
      else case get_audio_stream_loop (m_media_objects st) 0 stream of
             None \<Rightarrow> Inl Uninitialised_read
           | Some r \<Rightarrow> Inr r)"

text \<open>\<^verbatim>\<open>std::string::find_last_of\<close> for one character; \<open>npos\<close> is the largest \<^verbatim>\<open>size_t\<close>.\<close>

definition npos :: nat where
  "npos = 2 ^ 64 - 1"

definition find_last_of :: "string \<Rightarrow> char \<Rightarrow> nat" where
  "find_last_of s c =
     (case filter (\<lambda>i. s ! i = c) (rev [0..<length s]) of [] \<Rightarrow> npos | i # rest \<Rightarrow> i)"

definition basename :: "string \<Rightarrow> string" where
  "basename u =
     (let last_slash = find_last_of u (CHR ''/'');
          last_backslash = find_last_of u (CHR 0x5C);
          i = (if last_slash \<noteq> npos \<and> last_backslash \<noteq> npos
               then max last_slash last_backslash
               else min last_slash last_backslash)
      in if i = npos then u else drop (i + 1) u)"

subsection \<open>Tags\<close>

definition tag_value :: "media_input \<Rightarrow> string \<Rightarrow> error + string" where
  "tag_value st tag_name =
     (case find (\<lambda>i. tag_name = m_tag_names st ! i) [0..<length (m_tag_names st)] of
        None \<Rightarrow> Inr []
      | Some i \<Rightarrow> if i < length (m_tag_values st) then Inr (m_tag_values st ! i) else Inl Out_of_range)"

subsection \<open>Frame rate\<close>

definition video_frame_rate_numerator :: "media_input \<Rightarrow> error + int" where
  "video_frame_rate_numerator st =
     (if \<not> m_active_video_stream st \<ge> 0 then Inl Assertion_failed
      else and_then (get_video_stream st (m_active_video_stream st)) (\<lambda>(ob, s).
           and_then (media_object_at st s) (\<lambda>m.
             media_object_video_frame_rate_numerator m s)))"

definition video_frame_rate_denominator :: "media_input \<Rightarrow> error + int" where
  "video_frame_rate_denominator st =
     (if \<not> m_active_video_stream st \<ge> 0 then Inl Assertion_failed
      else and_then (get_video_stream st (m_active_video_stream st)) (\<lambda>(ob, s).
           and_then (media_object_at st s) (\<lambda>m.
             media_object_video_frame_rate_denominator m s)))"

subsection \<open>Stereo layout\<close>

text \<open>The \<^verbatim>\<open>%\<close> of C++ on \<^verbatim>\<open>int\<close>: the remainder takes the sign of the dividend.\<close>

definition c_rem :: "int \<Rightarrow> int \<Rightarrow> int" where
  "c_rem a b = sgn a * (\<bar>a\<bar> mod \<bar>b\<bar>)"

definition stereo_layout_is_supported :: "media_input \<Rightarrow> stereo_layout_t \<Rightarrow> bool \<Rightarrow> error + bool" where
  "stereo_layout_is_supported st l swap =
     (if video_streams st < 1 then Inr False
      else if \<not> m_active_video_stream st \<ge> 0 then Inl Assertion_failed
      else if \<not> m_active_video_stream st < video_streams st then Inl Assertion_failed
      else and_then (get_video_stream st (m_active_video_stream st)) (\<lambda>(ob, s).
           and_then (media_object_at st ob) (\<lambda>m.
           and_then (media_object_video_frame_template m s) (\<lambda>t.
             Inr (if ((l = left_right \<or> l = left_right_half) \<and> c_rem (raw_width t) 2 \<noteq> 0)
                     \<or> ((l = top_bottom \<or> l = top_bottom_half) \<and> c_rem (raw_height t) 2 \<noteq> 0)
                     \<or> (l = even_odd_rows \<and> c_rem (raw_height t) 2 \<noteq> 0)
                     \<or> (l = separate \<and> \<not> m_supports_stereo_layout_separate st)
                  then False else True)))))"

definition seek :: "media_input \<Rightarrow> int64 \<Rightarrow> media_input" where
  "seek st pos =
     st\<lparr>m_media_objects := map (\<lambda>i. media_object_seek (m_media_objects st ! i) pos)
                               [0..<length (m_media_objects st)]\<rparr>"

definition int64_min :: int64 where
  "int64_min = 0x8000000000000000"

definition int64_max :: int64 where
  "int64_max = 0x7FFFFFFFFFFFFFFF"

definition set_stereo_layout ::
  "externals \<Rightarrow> media_input \<Rightarrow> stereo_layout_t \<Rightarrow> bool \<Rightarrow> error + media_input" where
  "set_stereo_layout ext st l swap =
     and_then (stereo_layout_is_supported st l swap) (\<lambda>supported.
       if \<not> supported then Inl Assertion_failed
       else and_then (get_video_stream st (m_active_video_stream st)) (\<lambda>(ob, s).
            and_then (media_object_at st ob) (\<lambda>m.
            and_then (media_object_video_frame_template m s) (\<lambda>t.
              let st1 = st\<lparr>m_video_frame :=
                             set_view_dimensions ext (t\<lparr>stereo_layout := l, stereo_layout_swap := swap\<rparr>)\<rparr>
              in if l = separate
                 then (let pos = media_object_tell m
                       in if int64_min <s pos then Inr (seek st1 pos) else Inr st1)
                 else Inr st1))))"

subsection \<open>Stream selection\<close>

text \<open>The inner loop \<^verbatim>\<open>for (j = 0; j < video_streams(); j++) video_stream_set_active(j, b j)\<close>
  on one source.\<close>

definition set_video_streams_active :: "(nat \<Rightarrow> bool) \<Rightarrow> media_object \<Rightarrow> media_object" where
  "set_video_streams_active b m =
     fold (\<lambda>j m'. video_stream_set_active m' j (b j)) [0..<nat (media_object_video_streams m)] m"

definition set_audio_streams_active :: "(nat \<Rightarrow> bool) \<Rightarrow> media_object \<Rightarrow> media_object" where
  "set_audio_streams_active b m =
     fold (\<lambda>j m'. audio_stream_set_active m' j (b j)) [0..<nat (media_object_audio_streams m)] m"

definition select_video_stream :: "externals \<Rightarrow> media_input \<Rightarrow> int \<Rightarrow> error + media_input" where
  "select_video_stream ext st video_stream =
     (if \<not> video_stream \<ge> 0 then Inl Assertion_failed
      else if \<not> video_stream < video_streams st then Inl Assertion_failed
      else if stereo_layout (m_video_frame st) = separate
      then Inr (st\<lparr>m_media_objects :=
                     map (\<lambda>i. set_video_streams_active (\<lambda>j. True) (m_media_objects st ! i))
                         [0..<length (m_media_objects st)]\<rparr>)
      else (let l = stereo_layout (m_video_frame st);
                swap = stereo_layout_swap (m_video_frame st);
                st1 = st\<lparr>m_active_video_stream := video_stream\<rparr>
            in and_then (set_stereo_layout ext st1 l swap) (\<lambda>st2.
               and_then (get_video_stream st2 (m_active_video_stream st2)) (\<lambda>(ob, s).
                 Inr (st2\<lparr>m_media_objects :=
                            map (\<lambda>i. set_video_streams_active (\<lambda>j. int i = ob \<and> int j = s)
                                       (m_media_objects st2 ! i))
                                [0..<length (m_media_objects st2)]\<rparr>)))))"

definition select_audio_stream :: "media_input \<Rightarrow> int \<Rightarrow> error + media_input" where
  "select_audio_stream st audio_stream =
     (if \<not> audio_stream \<ge> 0 then Inl Assertion_failed
      else if \<not> audio_stream < audio_streams st then Inl Assertion_failed
      else (let st1 = st\<lparr>m_active_audio_stream := audio_stream\<rparr>
            in and_then (get_audio_stream st1 (m_active_audio_stream st1)) (\<lambda>(ob, s).
                 Inr (st1\<lparr>m_media_objects :=
                            map (\<lambda>i. set_audio_streams_active (\<lambda>j. int i = ob \<and> int j = s)
                                       (m_media_objects st1 ! i))
                                [0..<length (m_media_objects st1)]\<rparr>))))"

subsection \<open>Reading a video frame\<close>

definition put_media_object :: "media_input \<Rightarrow> int \<Rightarrow> media_object \<Rightarrow> media_input" where
  "put_media_object st i m = st\<lparr>m_media_objects := (m_media_objects st)[nat i := m]\<rparr>"

text \<open>One round \<open>p\<close> of the copying loop of the \<^verbatim>\<open>separate\<close> branch, and of the other branch.\<close>

definition copy_planes2 :: "video_frame \<Rightarrow> video_frame \<Rightarrow> nat \<Rightarrow> video_frame \<Rightarrow> video_frame" where
  "copy_planes2 f0 f1 p frame =
     frame\<lparr>data := (data frame)(0 := (data frame 0)(p := data f0 0 p),
                                1 := (data frame 1)(p := data f1 0 p)),
           line_size := (line_size frame)(0 := (line_size frame 0)(p := line_size f0 0 p),
                                          1 := (line_size frame 1)(p := line_size f1 0 p))\<rparr>"

definition copy_planes1 :: "video_frame \<Rightarrow> nat \<Rightarrow> video_frame \<Rightarrow> video_frame" where
  "copy_planes1 f p frame =
     frame\<lparr>data := (data frame)(0 := (data frame 0)(p := data f 0 p)),
           line_size := (line_size frame)(0 := (line_size frame 0)(p := line_size f 0 p))\<rparr>"

definition finish_video_frame_read ::
  "externals \<Rightarrow> media_input \<Rightarrow> error + (video_frame \<times> media_input)" where
  "finish_video_frame_read ext st =
     (if \<not> m_active_video_stream st \<ge> 0 then Inl Assertion_failed
      else if stereo_layout (m_video_frame st) = separate
      then and_then (get_video_stream st 0) (\<lambda>(o0, s0).
           and_then (get_video_stream st 1) (\<lambda>(o1, s1).
           and_then (media_object_at st o0) (\<lambda>m0.
             let (f0, m0') = media_object_finish_video_frame_read ext m0 s0;
                 st1 = put_media_object st o0 m0'
             in and_then (media_object_at st1 o1) (\<lambda>m1.
                  let (f1, m1') = media_object_finish_video_frame_read ext m1 s1;
                      st2 = put_media_object st1 o1 m1'
                  in if \<not> is_valid f0 \<or> \<not> is_valid f1 then Inr (video_frame_default, st2)
                     else Inr ((fold (copy_planes2 f0 f1) [0..<3] (m_video_frame st2))
                                 \<lparr>presentation_time := presentation_time f0\<rparr>, st2)))))
      else and_then (get_video_stream st (m_active_video_stream st)) (\<lambda>(ob, s).
           and_then (media_object_at st ob) (\<lambda>m.
             let (f, m') = media_object_finish_video_frame_read ext m s;
                 st1 = put_media_object st ob m'
             in if \<not> is_valid f then Inr (video_frame_default, st1)
                else Inr ((fold (copy_planes1 f) [0..<3] (m_video_frame st1))
                            \<lparr>presentation_time := presentation_time f\<rparr>, st1))))"

subsection \<open>Close\<close>

definition media_input_close :: "media_input \<Rightarrow> media_input" where
  "media_input_close st =
     (let st1 = st\<lparr>m_id := []\<rparr>;
          st2 = st1\<lparr>m_media_objects := map (\<lambda>i. media_object_close (m_media_objects st1 ! i))
                                           [0..<length (m_media_objects st1)]\<rparr>
      in st2\<lparr>m_media_objects := [], m_tag_names := [], m_tag_values := [],
             m_video_stream_names := [], m_audio_stream_names := [],
             m_active_video_stream := - 1, m_active_audio_stream := - 1,
             m_initial_skip := 0, m_duration := - 1,
             m_video_frame := video_frame_default, m_audio_blob := audio_blob_default\<rparr>)"

subsection \<open>Open\<close>

text \<open>\<^verbatim>\<open>std::vector::resize\<close>: cut, or filled up with default-constructed sources.\<close>

definition resize :: "media_object list \<Rightarrow> nat \<Rightarrow> media_object list" where
  "resize v n = take n v @ replicate (n - length v) media_object_default"

text \<open>Open media objects, from index \<open>i\<close> on. \<open>Inl\<close> is the vector at the moment a source
  throws (the source that failed is left as it was).\<close>

fun open_media_objects ::
  "externals \<Rightarrow> string list \<Rightarrow> nat \<Rightarrow> media_object list \<Rightarrow> media_object list + media_object list" where
  "open_media_objects ext [] i v = Inr v"
| "open_media_objects ext (u # us) i v =
     (case media_object_open ext (v ! i) u of
        None \<Rightarrow> Inl v
      | Some m \<Rightarrow> open_media_objects ext us (i + 1) (v[i := m]))"

text \<open>Construct id for this input.\<close>

definition construct_id :: "media_object list \<Rightarrow> string" where
  "construct_id v =
     fold (\<lambda>i s. s @ [CHR ''/''] @ basename (url (v ! i))) [1..<length v] (basename (url (v ! 0)))"

definition pfx :: "externals \<Rightarrow> nat \<Rightarrow> nat \<Rightarrow> string" where
  "pfx ext n i = (if n = 1 then [] else str_from ext (i + 1) @ '' - '')"

text \<open>Gather metadata.\<close>

definition gather_metadata :: "externals \<Rightarrow> media_input \<Rightarrow> media_input" where
  "gather_metadata ext st =
     (let v = m_media_objects st
      in fold (\<lambda>i st'.
           fold (\<lambda>j st''.
                   st''\<lparr>m_tag_names := m_tag_names st'' @ [pfx ext (length v) i @ fst (tag_pairs (v ! i) ! j)],
                        m_tag_values := m_tag_values st'' @ [pfx ext (length v) i @ snd (tag_pairs (v ! i) ! j)]\<rparr>)
                [0..<length (tag_pairs (v ! i))] st')
           [0..<length v] st)"

text \<open>Gather streams and stream names.\<close>

definition gather_video_stream_names :: "externals \<Rightarrow> media_object list \<Rightarrow> string list \<Rightarrow> string list" where
  "gather_video_stream_names ext v names =
     fold (\<lambda>i names'.
        fold (\<lambda>j names''.
                names'' @ [pfx ext (length v) i @ pfx ext (length (video (v ! i))) j
                           @ video_format_info ext (video_template (video (v ! i) ! j))])
             [0..<nat (media_object_video_streams (v ! i))] names')
        [0..<length v] names"

definition gather_audio_stream_names :: "externals \<Rightarrow> media_object list \<Rightarrow> string list \<Rightarrow> string list" where
  "gather_audio_stream_names ext v names =
     fold (\<lambda>i names'.
        fold (\<lambda>j names''.
                names'' @ [pfx ext (length v) i @ pfx ext (length (audio (v ! i))) j
                           @ audio_format_info ext (audio_template (audio (v ! i) ! j))])
             [0..<nat (media_object_audio_streams (v ! i))] names')
        [0..<length v] names"

text \<open>Set duration information.\<close>

definition lower_duration :: "int64 \<Rightarrow> int64 \<Rightarrow> int64" where
  "lower_duration d cur = (if d <s cur then d else cur)"

definition set_duration :: "media_object list \<Rightarrow> int64" where
  "set_duration v =
     fold (\<lambda>i cur.
        fold (\<lambda>j cur'. lower_duration (audio_duration_us (audio (v ! i) ! j)) cur')
             [0..<nat (media_object_audio_streams (v ! i))]
             (fold (\<lambda>j cur'. lower_duration (video_duration_us (video (v ! i) ! j)) cur')
                   [0..<nat (media_object_video_streams (v ! i))] cur))
        [0..<length v] int64_max"

text \<open>Skip advertisement: a tag that is missing or does not parse leaves \<^verbatim>\<open>_initial_skip\<close>.\<close>

definition set_initial_skip :: "externals \<Rightarrow> media_input \<Rightarrow> error + media_input" where
  "set_initial_skip ext st =
     and_then (tag_value st ''StereoscopicSkip'') (\<lambda>s.
       case str_to_int64 ext s of None \<Rightarrow> Inr st | Some k \<Rightarrow> Inr (st\<lparr>m_initial_skip := k\<rparr>))"

text \<open>Find stereo layout.\<close>

definition find_stereo_layout :: "media_input \<Rightarrow> error + media_input" where
  "find_stereo_layout st =
     (let st1 = st\<lparr>m_supports_stereo_layout_separate := False\<rparr>
      in if video_streams st1 = 2
         then and_then (get_video_stream st1 0) (\<lambda>(o0, v0).
              and_then (get_video_stream st1 1) (\<lambda>(o1, v1).
              and_then (media_object_at st1 o0) (\<lambda>m0.
              and_then (media_object_video_frame_template m0 v0) (\<lambda>t0.
              and_then (media_object_at st1 o1) (\<lambda>m1.
              and_then (media_object_video_frame_template m1 v1) (\<lambda>t1.
                if width t0 = width t1
                   \<and> height t0 = height t1
                   \<and> (float_le (aspect_ratio t0) (aspect_ratio t1) \<and> float_ge (aspect_ratio t0) (aspect_ratio t1))
                   \<and> layout t0 = layout t1
                   \<and> color_space t0 = color_space t1
                   \<and> value_range t0 = value_range t1
                   \<and> chroma_location t0 = chroma_location t1
                then Inr (st1\<lparr>m_supports_stereo_layout_separate := True\<rparr>)
                else Inr st1))))))
         else Inr st1)"

text \<open>Set active video stream(s).\<close>

definition set_active_video_stream :: "externals \<Rightarrow> media_input \<Rightarrow> error + media_input" where
  "set_active_video_stream ext st =
     and_then
       (if m_supports_stereo_layout_separate st
        then (let st1 = st\<lparr>m_active_video_stream := 0\<rparr>
              in and_then (get_video_stream st1 (m_active_video_stream st1)) (\<lambda>(ob, s).
                 and_then (media_object_at st1 ob) (\<lambda>m.
                 and_then (media_object_video_frame_template m s) (\<lambda>t.
                   Inr (st1\<lparr>m_video_frame := t\<lparr>stereo_layout := separate\<rparr>\<rparr>)))))
        else if video_streams st > 0
        then (let st1 = st\<lparr>m_active_video_stream := 0\<rparr>
              in and_then (get_video_stream st1 (m_active_video_stream st1)) (\<lambda>(ob, s).
                 and_then (media_object_at st1 ob) (\<lambda>m.
                 and_then (media_object_video_frame_template m s) (\<lambda>t.
                   Inr (st1\<lparr>m_video_frame := t\<rparr>)))))
        else Inr (st\<lparr>m_active_video_stream := - 1\<rparr>))
       (\<lambda>st2. if m_active_video_stream st2 \<ge> 0
               then select_video_stream ext st2 (m_active_video_stream st2)
               else Inr st2)"

text \<open>Set active audio stream.\<close>

definition set_active_audio_stream :: "media_input \<Rightarrow> error + media_input" where
  "set_active_audio_stream st =
     (let st1 = st\<lparr>m_active_audio_stream := (if audio_streams st > 0 then 0 else - 1)\<rparr>
      in if m_active_audio_stream st1 \<ge> 0
         then and_then (get_audio_stream st1 (m_active_audio_stream st1)) (\<lambda>(ob, s).
              and_then (media_object_at st1 ob) (\<lambda>m.
              and_then (media_object_audio_blob_template m s) (\<lambda>t.
                select_audio_stream (st1\<lparr>m_audio_blob := t\<rparr>) (m_active_audio_stream st1))))
         else Inr st1)"

text \<open>Print summary: the messages are not modelled, the checks of the calls they make are
  (\<^verbatim>\<open>video_frame_template()\<close> asserts an active video stream).\<close>

definition print_summary :: "media_input \<Rightarrow> error + unit" where
  "print_summary st =
     (if \<not> m_active_video_stream st \<ge> 0 then Inl Assertion_failed
      else and_then
             (for_each (\<lambda>i. and_then (get_video_stream st (int i)) (\<lambda>(ob, s).
                              and_then (media_object_at st ob) (\<lambda>m.
                              and_then (media_object_video_frame_template m s) (\<lambda>t. Inr ()))))
                       [0..<nat (video_streams st)])
             (\<lambda>u. for_each (\<lambda>i. and_then (get_audio_stream st (int i)) (\<lambda>(ob, s).
                                   and_then (media_object_at st ob) (\<lambda>m.
                                   and_then (media_object_audio_blob_template m s) (\<lambda>t. Inr ()))))
                            [0..<nat (audio_streams st)]))"

definition media_input_open :: "externals \<Rightarrow> media_input \<Rightarrow> string list \<Rightarrow> error + media_input" where
  "media_input_open ext st urls =
     (if \<not> length urls > 0 then Inl Assertion_failed
      else case open_media_objects ext urls 0 (resize (m_media_objects st) (length urls)) of
             Inl v \<Rightarrow> Inl (Source_open_failed (st\<lparr>m_media_objects := v\<rparr>))
           | Inr v \<Rightarrow>
               (let st1 = st\<lparr>m_media_objects := v\<rparr>;
                    st2 = st1\<lparr>m_id := construct_id (m_media_objects st1)\<rparr>;
                    st3 = gather_metadata ext st2;
                    st4 = st3\<lparr>m_video_stream_names :=
                                gather_video_stream_names ext (m_media_objects st3) (m_video_stream_names st3)\<rparr>;
                    st5 = st4\<lparr>m_audio_stream_names :=
                                gather_audio_stream_names ext (m_media_objects st4) (m_audio_stream_names st4)\<rparr>;
                    st6 = st5\<lparr>m_duration := set_duration (m_media_objects st5)\<rparr>
                in and_then (set_initial_skip ext st6) (\<lambda>st7.
                   and_then (find_stereo_layout st7) (\<lambda>st8.
                   and_then (set_active_video_stream ext st8) (\<lambda>st9.
                   and_then (set_active_audio_stream st9) (\<lambda>st10.
                   and_then (print_summary st10) (\<lambda>u. Inr st10)))))))"

section \<open>Notions of the specification\<close>

text \<open>The flattened stream tables: the streams of all sources, in source order.\<close>

definition flattened_video_streams :: "media_input \<Rightarrow> video_stream list" where
  "flattened_video_streams st = concat (map video (m_media_objects st))"

definition flattened_audio_streams :: "media_input \<Rightarrow> audio_stream list" where
  "flattened_audio_streams st = concat (map audio (m_media_objects st))"

text \<open>The pairs (source index, local stream index) for the given per-source stream counts, in
  source order and, within a source, in the order of the local index.\<close>

definition stream_pairs :: "int list \<Rightarrow> (int \<times> int) list" where
  "stream_pairs counts =
     concat (map (\<lambda>i. map (\<lambda>j. (int i, int j)) [0..<nat (counts ! i)]) [0..<length counts])"

text \<open>The durations of every video and every audio stream of every source.\<close>

definition stream_durations :: "media_input \<Rightarrow> int64 list" where
  "stream_durations st =
     concat (map (\<lambda>m. map video_duration_us (video m) @ map audio_duration_us (audio m))
                 (m_media_objects st))"

text \<open>Two templates agree on what makes them a stereo pair.\<close>

definition templates_agree :: "video_frame \<Rightarrow> video_frame \<Rightarrow> bool" where
  "templates_agree t0 t1 =
     (width t0 = width t1 \<and> height t0 = height t1 \<and> layout t0 = layout t1
      \<and> color_space t0 = color_space t1 \<and> value_range t0 = value_range t1
      \<and> chroma_location t0 = chroma_location t1
      \<and> float_eq (aspect_ratio t0) (aspect_ratio t1))"

text \<open>The activation flags of the underlying video streams, in flattened order.\<close>

definition active_video_flags :: "media_input \<Rightarrow> bool list" where
  "active_video_flags st = map video_active (flattened_video_streams st)"

text \<open>The stream tables of the input match its sources.\<close>

definition tables_match :: "media_input \<Rightarrow> bool" where
  "tables_match st =
     (video_streams st = sum_list (map media_object_video_streams (m_media_objects st))
      \<and> audio_streams st = sum_list (map media_object_audio_streams (m_media_objects st)))"

text \<open>The stereo layout that a template declares fits its raw dimensions.\<close>

definition layout_fits :: "video_frame \<Rightarrow> bool" where
  "layout_fits t =
     (\<not> ((stereo_layout t = left_right \<or> stereo_layout t = left_right_half) \<and> odd (raw_width t)
         \<or> (stereo_layout t = top_bottom \<or> stereo_layout t = top_bottom_half
             \<or> stereo_layout t = even_odd_rows) \<and> odd (raw_height t)))"

text \<open>A source without the activation flags of its streams and without its position: what
  \<^verbatim>\<open>open\<close> reads of it.\<close>

definition source_contents :: "media_object \<Rightarrow> media_object" where
  "source_contents m =
     m\<lparr>video := map (\<lambda>s. s\<lparr>video_active := False\<rparr>) (video m),
       audio := map (\<lambda>s. s\<lparr>audio_active := False\<rparr>) (audio m),
       position := 0\<rparr>"

text \<open>The loop that \<^verbatim>\<open>get_video_stream\<close> and \<^verbatim>\<open>get_audio_stream\<close> share, on the stream
  counts of the sources.\<close>

fun get_stream_loop :: "int list \<Rightarrow> int \<Rightarrow> int \<Rightarrow> (int \<times> int) option" where
  "get_stream_loop [] i stream = None"
| "get_stream_loop (c # cs) i stream =
     (if c < stream + 1 then get_stream_loop cs (i + 1) (stream - c) else Some (i, stream))"

section \<open>A concrete input\<close>

text \<open>Two sources of one video stream each, 10 and 7 seconds long, with the same format; the
  first also has an audio stream.\<close>

definition example_template :: video_frame where
  "example_template =
     \<lparr> raw_width = 1920, raw_height = 1080, width = 1920, height = 1080,
       aspect_ratio = Fin (16 / 9), layout = 3, color_space = 2, value_range = 1,
       chroma_location = 0, stereo_layout = mono_layout, stereo_layout_swap = False,
       data = (\<lambda>v p. 0), line_size = (\<lambda>v p. 0), presentation_time = 0, valid = False \<rparr>"

definition example_blob :: audio_blob where
  "example_blob = \<lparr> channels = 2, rate = 48000, sample_format = 1, blob_valid = False \<rparr>"

definition left_video :: video_stream where
  "left_video =
     \<lparr> video_template = example_template, video_duration_us = 10000000,
       frame_rate_numerator = 25, frame_rate_denominator = 1, video_active = False \<rparr>"

definition left_audio :: audio_stream where
  "left_audio =
     \<lparr> audio_template = example_blob, audio_duration_us = 10000000, audio_active = False \<rparr>"

definition right_video :: video_stream where
  "right_video =
     \<lparr> video_template = example_template, video_duration_us = 7000000,
       frame_rate_numerator = 30000, frame_rate_denominator = 1001, video_active = False \<rparr>"

definition left_source :: media_object where
  "left_source =
     \<lparr> url = ''d/left'', tag_pairs = [(''title'', ''Left'')],
       video = [left_video], audio = [left_audio], position = 0 \<rparr>"

definition right_source :: media_object where
  "right_source =
     \<lparr> url = ''right'', tag_pairs = [], video = [right_video], audio = [], position = 0 \<rparr>"

text \<open>A decoded frame of a source: its plane pointers and strides tell the sources apart.\<close>

definition example_frame :: "media_object \<Rightarrow> video_frame" where
  "example_frame m =
     example_template\<lparr>data := (\<lambda>v p. length (url m) * 100 + p),
                      line_size := (\<lambda>v p. length (url m) * 1000 + p),
                      presentation_time := position m + 3, valid := True\<rparr>"

text \<open>The collaborators of the example: a read yields a frame as long as the position of the
  source is before the end of the stream.\<close>

definition example_externals :: externals where
  "example_externals =
     \<lparr> media_object_open = (\<lambda>m u. if u = ''d/left'' then Some left_source
                                   else if u = ''right'' then Some right_source else None),
       str_to_int64 = (\<lambda>s. None),
       str_from = (\<lambda>n. if n = 1 then ''1'' else ''2''),
       video_format_info = (\<lambda>t. ''video''),
       audio_format_info = (\<lambda>t. ''audio''),
       set_view_dimensions = (\<lambda>t. t),
       media_object_finish_video_frame_read =
         (\<lambda>m s. if position m <s video_duration_us (video m ! nat s)
                 then (example_frame m, m\<lparr>position := position m + 40000\<rparr>)
                 else (video_frame_default, m)) \<rparr>"

definition example_urls :: "string list" where
  "example_urls = [''d/left'', ''right'']"

text \<open>The state after the sources are opened and the tables are gathered.\<close>

definition example_gathered :: media_input where
  "example_gathered =
     \<lparr> m_media_objects = [left_source, right_source],
       m_id = ''left/right'',
       m_tag_names = [''1 - title''], m_tag_values = [''1 - Left''],
       m_video_stream_names = [''1 - video'', ''2 - video''],
       m_audio_stream_names = [''1 - audio''],
       m_supports_stereo_layout_separate = False,
       m_active_video_stream = - 1, m_active_audio_stream = - 1,
       m_initial_skip = 0, m_duration = 7000000,
       m_video_frame = video_frame_default, m_audio_blob = audio_blob_default \<rparr>"

text \<open>The state after \<^verbatim>\<open>open\<close>.\<close>

definition example_input :: media_input where
  "example_input =
     \<lparr> m_media_objects =
         [left_source\<lparr>video := [left_video\<lparr>video_active := True\<rparr>],
                      audio := [left_audio\<lparr>audio_active := True\<rparr>]\<rparr>,
          right_source\<lparr>video := [right_video\<lparr>video_active := True\<rparr>]\<rparr>],
       m_id = ''left/right'',
       m_tag_names = [''1 - title''], m_tag_values = [''1 - Left''],
       m_video_stream_names = [''1 - video'', ''2 - video''],
       m_audio_stream_names = [''1 - audio''],
       m_supports_stereo_layout_separate = True,
       m_active_video_stream = 0, m_active_audio_stream = 0,
       m_initial_skip = 0, m_duration = 7000000,
       m_video_frame = example_template\<lparr>stereo_layout := separate\<rparr>,
       m_audio_blob = example_blob \<rparr>"

text \<open>The states after, in turn, \<^verbatim>\<open>set_stereo_layout(mono, false)\<close>,
  \<^verbatim>\<open>select_video_stream(1)\<close> and \<^verbatim>\<open>set_stereo_layout(separate, false)\<close>.\<close>

definition example_mono :: media_input where
  "example_mono = example_input\<lparr>m_video_frame := example_template\<rparr>"

definition example_second :: media_input where
  "example_second =
     example_mono\<lparr>m_active_video_stream := 1,
                   m_media_objects :=
                     [left_source\<lparr>audio := [left_audio\<lparr>audio_active := True\<rparr>]\<rparr>,
                      right_source\<lparr>video := [right_video\<lparr>video_active := True\<rparr>]\<rparr>]\<rparr>"

definition example_pending :: media_input where
  "example_pending = example_second\<lparr>m_video_frame := example_template\<lparr>stereo_layout := separate\<rparr>\<rparr>"

text \<open>The state after, then, \<^verbatim>\<open>select_video_stream(0)\<close>.\<close>

definition example_both :: media_input where
  "example_both = example_pending\<lparr>m_media_objects := m_media_objects example_input\<rparr>"

text \<open>The same two sources with the audio stream in the second one.\<close>

definition silent_source :: media_object where
  "silent_source = left_source\<lparr>audio := []\<rparr>"

definition sound_source :: media_object where
  "sound_source = right_source\<lparr>audio := [left_audio]\<rparr>"

definition late_audio_externals :: externals where
  "late_audio_externals =
     example_externals\<lparr>media_object_open :=
       (\<lambda>m u. if u = ''d/left'' then Some silent_source
               else if u = ''right'' then Some sound_source else None)\<rparr>"

section \<open>Resolving a flattened index\<close>

lemma get_video_stream_loop_flat:
  assumes "0 \<le> g" and "g < int (length (concat (map video v)))"
  shows "\<exists>i j. get_video_stream_loop v k g = Some (k + int i, int j)
            \<and> i < length v \<and> j < length (video (v ! i))
            \<and> video (v ! i) ! j = concat (map video v) ! nat g
            \<and> g = int (length (concat (map video (take i v)))) + int j"
  using assms
proof (induction v arbitrary: k g)
  case Nil
  then show ?case by simp
next
  case (Cons m ms)
  show ?case
  proof (cases "media_object_video_streams m < g + 1")
    case True
    then have ge: "int (length (video m)) \<le> g"
      by (simp add: media_object_video_streams_def)
    let ?g = "g - media_object_video_streams m"
    have "0 \<le> ?g" and "?g < int (length (concat (map video ms)))"
      using ge Cons.prems by (simp_all add: media_object_video_streams_def)
    from Cons.IH [OF this, of "k + 1"] obtain i j where
      ij: "get_video_stream_loop ms (k + 1) ?g = Some (k + 1 + int i, int j)"
        "i < length ms" "j < length (video (ms ! i))"
        "video (ms ! i) ! j = concat (map video ms) ! nat ?g"
        "?g = int (length (concat (map video (take i ms)))) + int j"
      by blast
    have nth: "concat (map video (m # ms)) ! nat g = concat (map video ms) ! nat ?g"
      using ge Cons.prems(1)
      by (simp add: nth_append media_object_video_streams_def nat_diff_distrib)
    show ?thesis
      apply (rule exI [of _ "Suc i"], rule exI [of _ j])
      using True ij nth by (simp add: media_object_video_streams_def)
  next
    case False
    then have lt: "g < int (length (video m))"
      by (simp add: media_object_video_streams_def)
    then have lt': "nat g < length (video m)"
      using Cons.prems(1) by linarith
    show ?thesis
      apply (rule exI [of _ 0], rule exI [of _ "nat g"])
      using False lt' Cons.prems(1) by (simp add: nth_append)
  qed
qed

lemma get_video_stream_flat:
  assumes "video_streams st = int (length (flattened_video_streams st))"
    and "0 \<le> g" and "g < video_streams st"
  shows "\<exists>i j. get_video_stream st g = Inr (int i, int j)
            \<and> i < length (m_media_objects st) \<and> j < length (video (m_media_objects st ! i))
            \<and> video (m_media_objects st ! i) ! j = flattened_video_streams st ! nat g
            \<and> g = int (length (concat (map video (take i (m_media_objects st))))) + int j"
proof -
  have "g < int (length (concat (map video (m_media_objects st))))"
    using assms by (simp add: flattened_video_streams_def)
  from get_video_stream_loop_flat [OF assms(2) this, of 0] obtain i j where
    ij: "get_video_stream_loop (m_media_objects st) 0 g = Some (int i, int j)"
      "i < length (m_media_objects st)" "j < length (video (m_media_objects st ! i))"
      "video (m_media_objects st ! i) ! j = concat (map video (m_media_objects st)) ! nat g"
      "g = int (length (concat (map video (take i (m_media_objects st))))) + int j"
    by auto
  show ?thesis
    apply (rule exI [of _ i], rule exI [of _ j])
    using ij assms(3) by (simp add: get_video_stream_def flattened_video_streams_def)
qed

lemma media_object_at_nth:
  "i < length (m_media_objects st) \<Longrightarrow> media_object_at st (int i) = Inr (m_media_objects st ! i)"
  by (simp add: media_object_at_def)

lemma video_frame_template_nth:
  "j < length (video m) \<Longrightarrow>
   media_object_video_frame_template m (int j) = Inr (video_template (video m ! j))"
  by (simp add: media_object_video_frame_template_def video_stream_at_def
      media_object_video_streams_def and_then_def)

section \<open>The concrete input, evaluated\<close>

lemmas example_defs =
  example_gathered_def example_input_def left_source_def right_source_def left_video_def
  right_video_def left_audio_def example_externals_def example_mono_def example_second_def
  example_pending_def example_both_def

lemmas access_defs =
  get_video_stream_def get_audio_stream_def video_streams_def audio_streams_def
  media_object_video_streams_def media_object_audio_streams_def media_object_at_def
  media_object_video_frame_template_def media_object_audio_blob_template_def
  video_stream_at_def audio_stream_at_def and_then_def

lemma example_find_last_of:
  "find_last_of ''d/left'' (CHR ''/'') = 1"
  "find_last_of ''d/left'' (CHR 0x5C) = npos"
  "find_last_of ''right'' (CHR ''/'') = npos"
  "find_last_of ''right'' (CHR 0x5C) = npos"
  by (simp_all add: find_last_of_def)

lemma example_basename: "basename ''d/left'' = ''left''" "basename ''right'' = ''right''"
  by (simp_all add: basename_def example_find_last_of npos_def)

lemma example_opened:
  "open_media_objects example_externals example_urls 0 (resize [] 2) = Inr [left_source, right_source]"
  by (simp add: example_externals_def example_urls_def resize_def numeral_2_eq_2)

lemma example_id: "construct_id [left_source, right_source] = ''left/right''"
  by (simp add: construct_id_def left_source_def right_source_def example_basename)

lemma example_tags:
  "gather_metadata example_externals
     (st\<lparr>m_media_objects := [left_source, right_source], m_tag_names := [], m_tag_values := []\<rparr>)
   = st\<lparr>m_media_objects := [left_source, right_source], m_tag_names := [''1 - title''],
         m_tag_values := [''1 - Left'']\<rparr>"
  by (simp add: gather_metadata_def pfx_def example_externals_def left_source_def right_source_def)

lemma example_video_names:
  "gather_video_stream_names example_externals [left_source, right_source] [] = [''1 - video'', ''2 - video'']"
  by (simp add: gather_video_stream_names_def pfx_def example_externals_def left_source_def
      right_source_def media_object_video_streams_def)

lemma example_audio_names:
  "gather_audio_stream_names example_externals [left_source, right_source] [] = [''1 - audio'']"
  by (simp add: gather_audio_stream_names_def pfx_def example_externals_def left_source_def
      right_source_def media_object_audio_streams_def)

lemma example_duration: "set_duration [left_source, right_source] = 7000000"
  by (simp add: set_duration_def lower_duration_def left_source_def right_source_def
      media_object_audio_streams_def media_object_video_streams_def int64_max_def left_video_def
      right_video_def left_audio_def word_sless_alt)

lemma example_gather:
  "(let st1 = (media_input_new b)\<lparr>m_media_objects := [left_source, right_source]\<rparr>;
        st2 = st1\<lparr>m_id := construct_id (m_media_objects st1)\<rparr>;
        st3 = gather_metadata example_externals st2;
        st4 = st3\<lparr>m_video_stream_names :=
                    gather_video_stream_names example_externals (m_media_objects st3) (m_video_stream_names st3)\<rparr>;
        st5 = st4\<lparr>m_audio_stream_names :=
                    gather_audio_stream_names example_externals (m_media_objects st4) (m_audio_stream_names st4)\<rparr>;
        st6 = st5\<lparr>m_duration := set_duration (m_media_objects st5)\<rparr>
    in f st6) = f (example_gathered\<lparr>m_supports_stereo_layout_separate := b\<rparr>)"
proof -
  have new: "(media_input_new b)\<lparr>m_media_objects := [left_source, right_source], m_id := i\<rparr>
     =  (media_input_new b)\<lparr>m_id := i\<rparr>\<lparr>m_media_objects := [left_source, right_source], m_tag_names := [], m_tag_values := []\<rparr>" for i
    by (simp add: media_input_new_def)
  show ?thesis
    apply (simp add: Let_def example_id)
    apply (simp only: new example_tags)
    apply (simp add: example_video_names example_audio_names example_duration)
    apply (simp add: media_input_new_def example_gathered_def example_video_names
        example_audio_names example_duration)
    done
qed

lemma example_skip: "set_initial_skip example_externals (example_gathered\<lparr>m_supports_stereo_layout_separate := b\<rparr>)
    = Inr (example_gathered\<lparr>m_supports_stereo_layout_separate := b\<rparr>)"
  by (simp add: set_initial_skip_def tag_value_def and_then_def example_defs)

lemma example_stereo:
  "find_stereo_layout (example_gathered\<lparr>m_supports_stereo_layout_separate := b\<rparr>)
   = Inr (example_gathered\<lparr>m_supports_stereo_layout_separate := True\<rparr>)"
  by (simp add: find_stereo_layout_def access_defs example_defs float_ge_def example_template_def)

lemma example_active_video:
  "set_active_video_stream example_externals (example_gathered\<lparr>m_supports_stereo_layout_separate := True\<rparr>)
   = Inr (example_input\<lparr>m_media_objects :=
                          [left_source\<lparr>video := [left_video\<lparr>video_active := True\<rparr>]\<rparr>,
                           right_source\<lparr>video := [right_video\<lparr>video_active := True\<rparr>]\<rparr>],
                        m_active_audio_stream := - 1, m_audio_blob := audio_blob_default\<rparr>)"
  by (simp add: set_active_video_stream_def select_video_stream_def set_video_streams_active_def
      video_stream_set_active_def access_defs example_defs numeral_2_eq_2)

lemma example_active_audio:
  "set_active_audio_stream
     (example_input\<lparr>m_media_objects :=
                      [left_source\<lparr>video := [left_video\<lparr>video_active := True\<rparr>]\<rparr>,
                       right_source\<lparr>video := [right_video\<lparr>video_active := True\<rparr>]\<rparr>],
                    m_active_audio_stream := - 1, m_audio_blob := audio_blob_default\<rparr>)
   = Inr example_input"
  by (simp add: set_active_audio_stream_def select_audio_stream_def set_audio_streams_active_def
      audio_stream_set_active_def access_defs example_defs numeral_2_eq_2)

lemma example_summary: "print_summary example_input = Inr ()"
  by (simp add: print_summary_def access_defs example_defs numeral_2_eq_2)

lemma example_open:
  "media_input_open example_externals (media_input_new b) example_urls = Inr example_input"
proof -
  have urls: "length example_urls = 2" "0 < length example_urls"
    by (simp_all add: example_urls_def)
  have empty: "m_media_objects (media_input_new b) = []"
    by (simp add: media_input_new_def)
  show ?thesis
    unfolding media_input_open_def
    apply (simp only: urls empty example_opened sum.case example_gather example_skip example_stereo
        example_active_video example_active_audio example_summary and_then_def)
    apply simp
    done
qed

lemma example_input_video:
  "video_streams example_input = 2"
  "flattened_video_streams example_input = [left_video\<lparr>video_active := True\<rparr>, right_video\<lparr>video_active := True\<rparr>]"
  "m_active_video_stream example_input = 0"
  by (simp_all add: example_input_def video_streams_def flattened_video_streams_def
      left_source_def right_source_def)

lemma example_set_mono:
  "set_stereo_layout example_externals example_input mono_layout False = Inr example_mono"
  by (simp add: set_stereo_layout_def stereo_layout_is_supported_def access_defs example_defs
      example_template_def)

lemma example_select_second:
  "select_video_stream example_externals example_mono 1 = Inr example_second"
  by (simp add: select_video_stream_def set_stereo_layout_def stereo_layout_is_supported_def
      set_video_streams_active_def video_stream_set_active_def access_defs example_defs
      example_template_def numeral_2_eq_2)

lemma example_set_separate:
  "set_stereo_layout example_externals example_second separate False = Inr example_pending"
  by (simp add: set_stereo_layout_def stereo_layout_is_supported_def access_defs example_defs
      example_template_def seek_def media_object_tell_def media_object_seek_def int64_min_def
      word_sless_alt numeral_2_eq_2)

lemma example_select_pending:
  "select_video_stream example_externals example_pending 0 = Inr example_both"
  by (simp add: select_video_stream_def set_video_streams_active_def video_stream_set_active_def
      access_defs example_defs numeral_2_eq_2)

lemma example_pending_video:
  "stereo_layout (m_video_frame example_pending) = separate"
  "video_streams example_pending = 2"
  "active_video_flags example_pending = [False, True]"
  by (simp_all add: example_defs video_streams_def active_video_flags_def
      flattened_video_streams_def)

lemma example_input_flags:
  "stereo_layout (m_video_frame example_input) = separate"
  "active_video_flags example_input = [True, True]"
  "active_video_flags example_both = [True, True]"
  by (simp_all add: example_defs active_video_flags_def flattened_video_streams_def)

lemma example_reads:
  "0 \<le> m_active_video_stream (seek example_input pos)"
  "stereo_layout (m_video_frame (seek example_input pos)) = separate"
  "get_video_stream (seek example_input pos) 0 = Inr (0, 0)"
  "get_video_stream (seek example_input pos) 1 = Inr (1, 0)"
  "media_object_at (seek example_input pos) 0 = Inr (left_source\<lparr>video := [left_video\<lparr>video_active := True\<rparr>],
                      audio := [left_audio\<lparr>audio_active := True\<rparr>], position := pos\<rparr>)"
  "media_object_at (put_media_object (seek example_input pos) 0 m) 1
     = Inr (right_source\<lparr>video := [right_video\<lparr>video_active := True\<rparr>], position := pos\<rparr>)"
  by (simp_all add: seek_def media_object_seek_def put_media_object_def access_defs
      example_input_def left_source_def right_source_def numeral_2_eq_2)

lemma example_decode:
  "media_object_finish_video_frame_read example_externals
     (left_source\<lparr>video := [left_video\<lparr>video_active := True\<rparr>],
                  audio := [left_audio\<lparr>audio_active := True\<rparr>], position := 0\<rparr>) 0
   = (example_frame left_source,
      left_source\<lparr>video := [left_video\<lparr>video_active := True\<rparr>],
                  audio := [left_audio\<lparr>audio_active := True\<rparr>], position := 40000\<rparr>)"
  "media_object_finish_video_frame_read example_externals
     (right_source\<lparr>video := [right_video\<lparr>video_active := True\<rparr>], position := 0\<rparr>) 0
   = (example_frame right_source,
      right_source\<lparr>video := [right_video\<lparr>video_active := True\<rparr>], position := 40000\<rparr>)"
  "media_object_finish_video_frame_read example_externals
     (left_source\<lparr>video := [left_video\<lparr>video_active := True\<rparr>],
                  audio := [left_audio\<lparr>audio_active := True\<rparr>], position := 8000000\<rparr>) 0
   = (example_frame (left_source\<lparr>position := 8000000\<rparr>),
      left_source\<lparr>video := [left_video\<lparr>video_active := True\<rparr>],
                  audio := [left_audio\<lparr>audio_active := True\<rparr>], position := 8040000\<rparr>)"
  "media_object_finish_video_frame_read example_externals
     (right_source\<lparr>video := [right_video\<lparr>video_active := True\<rparr>], position := 8000000\<rparr>) 0
   = (video_frame_default,
      right_source\<lparr>video := [right_video\<lparr>video_active := True\<rparr>], position := 8000000\<rparr>)"
  by (simp_all add: example_externals_def left_source_def right_source_def left_video_def
      right_video_def example_frame_def word_sless_alt)

lemma example_frames_valid:
  "is_valid (example_frame m)" "\<not> is_valid video_frame_default"
  by (simp_all add: is_valid_def example_frame_def video_frame_default_def)

section \<open>Closing\<close>

text \<open>
  C7: \<^verbatim>\<open>close()\<close> puts every attribute back to the value the constructor gives it: the
  duration is -1, the active stream indices are -1, the initial skip is 0, the id, the tag
  tables and the stream-name tables are empty, no source is left and the two formats are the
  default ones; the one member the constructor leaves uninitialised,
  \<^verbatim>\<open>_supports_stereo_layout_separate\<close>, is not touched. A second \<^verbatim>\<open>close()\<close> changes nothing,
  and after \<^verbatim>\<open>close()\<close> the duration is -1 and the tag and stream counts are 0.
\<close>

theorem close_resets_to_constructed_state:
  "media_input_close st = media_input_new (m_supports_stereo_layout_separate st)
   \<and> m_duration (media_input_close st) = - 1
   \<and> m_active_video_stream (media_input_close st) = - 1
   \<and> m_active_audio_stream (media_input_close st) = - 1
   \<and> m_initial_skip (media_input_close st) = 0
   \<and> m_id (media_input_close st) = []
   \<and> m_media_objects (media_input_close st) = []
   \<and> m_tag_names (media_input_close st) = [] \<and> m_tag_values (media_input_close st) = []
   \<and> m_video_stream_names (media_input_close st) = []
   \<and> m_audio_stream_names (media_input_close st) = []
   \<and> media_input_close (media_input_close st) = media_input_close st
   \<and> tags (media_input_close st) = 0
   \<and> video_streams (media_input_close st) = 0
   \<and> audio_streams (media_input_close st) = 0"
  by (cases st)
     (simp add: media_input_close_def media_input_new_def tags_def video_streams_def
        audio_streams_def)

theorem close_resets_to_constructed_state_witness:
  "media_input_close example_input = media_input_new True
   \<and> media_input_close (media_input_close example_input) = media_input_close example_input
   \<and> m_duration (media_input_close example_input) = - 1
   \<and> video_streams example_input = 2 \<and> video_streams (media_input_close example_input) = 0"
proof -
  have flag: "m_supports_stereo_layout_separate example_input = True"
    by (simp add: example_input_def)
  have two: "video_streams example_input = 2"
    by (simp add: example_input_def video_streams_def)
  note closed = close_resets_to_constructed_state [of example_input, unfolded flag]
  from closed two show ?thesis
    by blast
qed

section \<open>Supported stereo layouts\<close>

lemma c_rem_2_odd: "(c_rem a 2 \<noteq> 0) = odd a"
proof -
  have "\<bar>a\<bar> mod 2 = a mod 2"
    by presburger
  then show ?thesis
    by (auto simp: c_rem_def sgn_if odd_iff_mod_2_eq_one)
qed

text \<open>
  C10: \<^verbatim>\<open>stereo_layout_is_supported\<close> does not depend on its \<^verbatim>\<open>swap\<close> argument: in one
  state and for one layout, any two values of it give the same result.
\<close>

theorem stereo_layout_is_supported_ignores_swap:
  "stereo_layout_is_supported st l swap1 = stereo_layout_is_supported st l swap2"
  by (simp add: stereo_layout_is_supported_def)

theorem stereo_layout_is_supported_ignores_swap_witness:
  "stereo_layout_is_supported example_input left_right True = stereo_layout_is_supported example_input left_right False"
  using stereo_layout_is_supported_ignores_swap [of example_input left_right True False] .

text \<open>
  C5: \<^verbatim>\<open>stereo_layout_is_supported\<close> returns false when there is no video stream. Otherwise
  (the stream table matching the sources and the active index being one of its entries, as
  the assertions of the function ask) it returns false exactly when the layout is
  \<^verbatim>\<open>left_right\<close> or \<^verbatim>\<open>left_right_half\<close> and the raw width of the active stream is odd, or
  the layout is \<^verbatim>\<open>top_bottom\<close>, \<^verbatim>\<open>top_bottom_half\<close> or \<^verbatim>\<open>even_odd_rows\<close> and its raw height
  is odd, or the layout is \<^verbatim>\<open>separate\<close> and separate stereo is not supported; it returns
  true for every other layout.
\<close>

theorem stereo_layout_is_supported_cases:
  "(video_streams st < 1 \<longrightarrow> stereo_layout_is_supported st l swap = Inr False)
   \<and> (1 \<le> video_streams st \<and> video_streams st = int (length (flattened_video_streams st))
        \<and> 0 \<le> m_active_video_stream st \<and> m_active_video_stream st < video_streams st \<longrightarrow>
      stereo_layout_is_supported st l swap =
        Inr (\<not> ((l = left_right \<or> l = left_right_half)
                   \<and> odd (raw_width (video_template (flattened_video_streams st ! nat (m_active_video_stream st))))
                \<or> (l = top_bottom \<or> l = top_bottom_half \<or> l = even_odd_rows)
                   \<and> odd (raw_height (video_template (flattened_video_streams st ! nat (m_active_video_stream st))))
                \<or> l = separate \<and> \<not> m_supports_stereo_layout_separate st)))"
proof (intro conjI impI)
  assume "video_streams st < 1"
  then show "stereo_layout_is_supported st l swap = Inr False"
    by (simp add: stereo_layout_is_supported_def)
next
  let ?a = "m_active_video_stream st"
  let ?t = "video_template (flattened_video_streams st ! nat ?a)"
  assume h: "1 \<le> video_streams st \<and> video_streams st = int (length (flattened_video_streams st))
        \<and> 0 \<le> ?a \<and> ?a < video_streams st"
  then obtain i j where
    ij: "get_video_stream st ?a = Inr (int i, int j)"
      "i < length (m_media_objects st)" "j < length (video (m_media_objects st ! i))"
      "video (m_media_objects st ! i) ! j = flattened_video_streams st ! nat ?a"
    using get_video_stream_flat [of st ?a] by blast
  have m: "media_object_at st (int i) = Inr (m_media_objects st ! i)"
    using ij(2) by (rule media_object_at_nth)
  have t: "media_object_video_frame_template (m_media_objects st ! i) (int j) = Inr ?t"
    using video_frame_template_nth [OF ij(3)] ij(4) by simp
  from h have "1 \<le> video_streams st" and pre23: "0 \<le> ?a" "?a < video_streams st"
    by blast+
  then have pre1: "\<not> video_streams st < 1"
    by linarith
  note pre = pre1 pre23
  have "stereo_layout_is_supported st l swap =
         Inr (if ((l = left_right \<or> l = left_right_half) \<and> c_rem (raw_width ?t) 2 \<noteq> 0)
                     \<or> ((l = top_bottom \<or> l = top_bottom_half) \<and> c_rem (raw_height ?t) 2 \<noteq> 0)
                     \<or> (l = even_odd_rows \<and> c_rem (raw_height ?t) 2 \<noteq> 0)
                     \<or> (l = separate \<and> \<not> m_supports_stereo_layout_separate st)
                  then False else True)"
    unfolding stereo_layout_is_supported_def
    by (simp only: pre ij(1) m t and_then_def if_False if_True not_True_eq_False not_False_eq_True
        sum.case prod.case)
  then show "stereo_layout_is_supported st l swap =
        Inr (\<not> ((l = left_right \<or> l = left_right_half) \<and> odd (raw_width ?t)
                \<or> (l = top_bottom \<or> l = top_bottom_half \<or> l = even_odd_rows) \<and> odd (raw_height ?t)
                \<or> l = separate \<and> \<not> m_supports_stereo_layout_separate st))"
    unfolding c_rem_2_odd by auto
qed

theorem stereo_layout_is_supported_cases_witness:
  "stereo_layout_is_supported (media_input_new False) left_right False = Inr False
   \<and> stereo_layout_is_supported example_input top_bottom True = Inr True
   \<and> stereo_layout_is_supported example_input separate False = Inr True"
proof -
  have none: "video_streams (media_input_new False) < 1"
    by (simp add: video_streams_def media_input_new_def)
  have ok: "1 \<le> video_streams example_input
      \<and> video_streams example_input = int (length (flattened_video_streams example_input))
      \<and> 0 \<le> m_active_video_stream example_input
      \<and> m_active_video_stream example_input < video_streams example_input"
    by (simp add: example_input_video)
  have t: "raw_height (video_template (flattened_video_streams example_input ! nat (m_active_video_stream example_input))) = 1080"
    by (simp add: example_input_video left_video_def example_template_def)
  have flag: "m_supports_stereo_layout_separate example_input"
    by (simp add: example_input_def)
  show ?thesis
    using stereo_layout_is_supported_cases [of "media_input_new False" left_right False] none
      stereo_layout_is_supported_cases [of example_input top_bottom True]
      stereo_layout_is_supported_cases [of example_input separate False] ok t flag
    by simp
qed

section \<open>Frame rate\<close>

text \<open>
  C9: the frame rate accessors should answer for the active video stream, asking the source
  that holds it. The code indexes the sources with the local stream index instead of the
  source index. After the two example sources are opened, the layout is set to mono and the
  second video stream is selected, the active stream is stream 0 of source 1, whose rate is
  30000/1001; \<^verbatim>\<open>video_frame_rate_numerator()\<close> and \<^verbatim>\<open>video_frame_rate_denominator()\<close>
  return 25 and 1, the rate of stream 0 of source 0.
\<close>

theorem frame_rate_of_active_stream_example:
  "media_input_open example_externals (media_input_new False) example_urls = Inr example_input
   \<and> set_stereo_layout example_externals example_input mono_layout False = Inr example_mono
   \<and> select_video_stream example_externals example_mono 1 = Inr example_second
   \<and> get_video_stream example_second (m_active_video_stream example_second) = Inr (1, 0)
   \<and> media_object_at example_second 1 = Inr (m_media_objects example_second ! 1)
   \<and> media_object_video_frame_rate_numerator (m_media_objects example_second ! 1) 0 = Inr 30000
   \<and> media_object_video_frame_rate_denominator (m_media_objects example_second ! 1) 0 = Inr 1001
   \<and> video_frame_rate_numerator example_second = Inr 25
   \<and> video_frame_rate_denominator example_second = Inr 1"
proof -
  have "get_video_stream example_second (m_active_video_stream example_second) = Inr (1, 0)"
    by (simp add: access_defs example_defs)
  moreover have "media_object_at example_second 1 = Inr (m_media_objects example_second ! 1)"
    by (simp add: access_defs example_defs)
  moreover have "media_object_video_frame_rate_numerator (m_media_objects example_second ! 1) 0 = Inr 30000"
    by (simp add: media_object_video_frame_rate_numerator_def access_defs example_defs)
  moreover have "media_object_video_frame_rate_denominator (m_media_objects example_second ! 1) 0 = Inr 1001"
    by (simp add: media_object_video_frame_rate_denominator_def access_defs example_defs)
  moreover have "video_frame_rate_numerator example_second = Inr 25"
    by (simp add: video_frame_rate_numerator_def media_object_video_frame_rate_numerator_def
        access_defs example_defs)
  moreover have "video_frame_rate_denominator example_second = Inr 1"
    by (simp add: video_frame_rate_denominator_def media_object_video_frame_rate_denominator_def
        access_defs example_defs)
  ultimately show ?thesis
    using example_open example_set_mono example_select_second by simp
qed

section \<open>Selecting a video stream\<close>

lemma fold_set_active_fields:
  "url (fold (\<lambda>j m'. video_stream_set_active m' j (b j)) js m) = url m
   \<and> tag_pairs (fold (\<lambda>j m'. video_stream_set_active m' j (b j)) js m) = tag_pairs m
   \<and> audio (fold (\<lambda>j m'. video_stream_set_active m' j (b j)) js m) = audio m
   \<and> position (fold (\<lambda>j m'. video_stream_set_active m' j (b j)) js m) = position m
   \<and> video (fold (\<lambda>j m'. video_stream_set_active m' j (b j)) js m)
       = fold (\<lambda>j xs. xs[j := (xs ! j)\<lparr>video_active := b j\<rparr>]) js (video m)"
  by (induction js arbitrary: m) (simp_all add: video_stream_set_active_def)

lemma fold_update_prefix:
  "n \<le> length xs \<Longrightarrow>
   fold (\<lambda>j ys. ys[j := h j (ys ! j)]) [0..<n] xs = map (\<lambda>j. h j (xs ! j)) [0..<n] @ drop n xs"
proof (induction n)
  case 0
  then show ?case by simp
next
  case (Suc n)
  then have n: "n < length xs" by simp
  have "fold (\<lambda>j ys. ys[j := h j (ys ! j)]) [0..<Suc n] xs
      = (map (\<lambda>j. h j (xs ! j)) [0..<n] @ drop n xs)[n := h n ((map (\<lambda>j. h j (xs ! j)) [0..<n] @ drop n xs) ! n)]"
    using Suc by simp
  also have "\<dots> = map (\<lambda>j. h j (xs ! j)) [0..<n] @ (drop n xs)[0 := h n (xs ! n)]"
    using n by (simp add: list_update_append nth_append)
  also have "(drop n xs)[0 := h n (xs ! n)] = h n (xs ! n) # drop (Suc n) xs"
    using n by (simp add: Cons_nth_drop_Suc [symmetric])
  finally show ?case by simp
qed

lemma video_set_video_streams_active:
  "video (set_video_streams_active b m) = map (\<lambda>j. (video m ! j)\<lparr>video_active := b j\<rparr>) [0..<length (video m)]"
  using fold_update_prefix [of "length (video m)" "video m" "\<lambda>j s. s\<lparr>video_active := b j\<rparr>"]
  by (simp add: set_video_streams_active_def fold_set_active_fields media_object_video_streams_def)

lemma set_all_active:
  "video (set_video_streams_active (\<lambda>j. True) m) = map (\<lambda>s. s\<lparr>video_active := True\<rparr>) (video m)"
  unfolding video_set_video_streams_active by (rule nth_equalityI) simp_all

lemma map_nth_upt: "map (\<lambda>i. f (xs ! i)) [0..<length xs] = map f xs"
  by (rule nth_equalityI) simp_all

lemma concat_map_map: "concat (map (\<lambda>x. map f (g x)) xs) = map f (concat (map g xs))"
  by (induction xs) simp_all

lemma set_all_active_source:
  "set_video_streams_active (\<lambda>j. True) m = m\<lparr>video := map (\<lambda>s. s\<lparr>video_active := True\<rparr>) (video m)\<rparr>"
proof (rule media_object.equality)
  show "video (set_video_streams_active (\<lambda>j. True) m)
      = video (m\<lparr>video := map (\<lambda>s. s\<lparr>video_active := True\<rparr>) (video m)\<rparr>)"
    by (simp add: set_all_active)
qed (simp_all add: set_video_streams_active_def fold_set_active_fields)

text \<open>
  C6, as amended: while the layout of the current video format is \<^verbatim>\<open>separate\<close>,
  \<^verbatim>\<open>select_video_stream\<close> with a valid index sets the activation flag of every video stream
  of every source and changes nothing else, neither in the sources nor in the input, so the
  state is the same as before when all of them (both streams of the pair) were active
  already; the result does not depend on the index.
\<close>

theorem select_video_stream_separate:
  assumes "stereo_layout (m_video_frame st) = separate"
    and "0 \<le> v" and "v < video_streams st" and "0 \<le> w" and "w < video_streams st"
  shows "select_video_stream ext st v = select_video_stream ext st w
     \<and> (\<exists>st'. select_video_stream ext st v = Inr st'
            \<and> st' = st\<lparr>m_media_objects :=
                          map (\<lambda>m. m\<lparr>video := map (\<lambda>s. s\<lparr>video_active := True\<rparr>) (video m)\<rparr>)
                              (m_media_objects st)\<rparr>
            \<and> active_video_flags st' = map (\<lambda>a. True) (active_video_flags st)
            \<and> (list_all (\<lambda>a. a) (active_video_flags st) \<longrightarrow> st' = st))"
proof -
  let ?st' = "st\<lparr>m_media_objects :=
                    map (\<lambda>m. m\<lparr>video := map (\<lambda>s. s\<lparr>video_active := True\<rparr>) (video m)\<rparr>)
                        (m_media_objects st)\<rparr>"
  have sources: "map (\<lambda>i. set_video_streams_active (\<lambda>j. True) (m_media_objects st ! i))
                      [0..<length (m_media_objects st)]
      = map (\<lambda>m. m\<lparr>video := map (\<lambda>s. s\<lparr>video_active := True\<rparr>) (video m)\<rparr>) (m_media_objects st)"
    unfolding set_all_active_source by (rule map_nth_upt)
  have v: "select_video_stream ext st v = Inr ?st'"
    using assms by (simp add: select_video_stream_def sources)
  have w: "select_video_stream ext st w = Inr ?st'"
    using assms by (simp add: select_video_stream_def sources)
  have flags: "active_video_flags ?st' = map (\<lambda>a. True) (active_video_flags st)"
    by (simp add: active_video_flags_def flattened_video_streams_def map_concat comp_def)
  have same: "?st' = st" if all: "list_all (\<lambda>a. a) (active_video_flags st)"
  proof -
    have "m\<lparr>video := map (\<lambda>s. s\<lparr>video_active := True\<rparr>) (video m)\<rparr> = m"
      if "m \<in> set (m_media_objects st)" for m
    proof -
      have "\<forall>s\<in>set (video m). video_active s"
        using all that
        by (auto simp: list_all_iff active_video_flags_def flattened_video_streams_def)
      then have "map (\<lambda>s. s\<lparr>video_active := True\<rparr>) (video m) = video m"
        by (intro map_idI) simp
      then show ?thesis
        by simp
    qed
    then have "map (\<lambda>m. m\<lparr>video := map (\<lambda>s. s\<lparr>video_active := True\<rparr>) (video m)\<rparr>)
                   (m_media_objects st) = m_media_objects st"
      by (intro map_idI)
    then show ?thesis
      by simp
  qed
  show ?thesis
    using v w flags same by simp
qed

theorem select_video_stream_separate_witness:
  "select_video_stream example_externals example_input 1 = select_video_stream example_externals example_input 0
   \<and> (\<exists>st'. select_video_stream example_externals example_input 1 = Inr st'
          \<and> active_video_flags st' = [True, True]
          \<and> active_video_flags st' = active_video_flags example_input)"
proof -
  have "stereo_layout (m_video_frame example_input) = separate"
    and "(0::int) \<le> 1" and "1 < video_streams example_input"
    and "(0::int) \<le> 0" and "0 < video_streams example_input"
    by (simp_all add: example_input_flags example_input_video)
  from select_video_stream_separate [OF this, of example_externals] obtain st' where
    same: "select_video_stream example_externals example_input 1
             = select_video_stream example_externals example_input 0"
    and res: "select_video_stream example_externals example_input 1 = Inr st'"
    and flags: "active_video_flags st' = map (\<lambda>a. True) (active_video_flags example_input)"
    by blast
  show ?thesis
    by (intro conjI exI [of _ st']) (simp_all add: same [symmetric] res flags example_input_flags)
qed

text \<open>
  C6, as stated, fails: after the two example sources are opened, the layout is set to mono,
  the second stream is selected and the layout is set to \<^verbatim>\<open>separate\<close> again, only the
  second stream is active; \<^verbatim>\<open>select_video_stream(0)\<close> then makes both active.
\<close>

theorem select_video_stream_separate_changes_active_streams:
  "media_input_open example_externals (media_input_new False) example_urls = Inr example_input
   \<and> set_stereo_layout example_externals example_input mono_layout False = Inr example_mono
   \<and> select_video_stream example_externals example_mono 1 = Inr example_second
   \<and> set_stereo_layout example_externals example_second separate False = Inr example_pending
   \<and> stereo_layout (m_video_frame example_pending) = separate
   \<and> video_streams example_pending = 2
   \<and> active_video_flags example_pending = [False, True]
   \<and> select_video_stream example_externals example_pending 0 = Inr example_both
   \<and> active_video_flags example_both = [True, True]"
  using example_open example_set_mono example_select_second example_set_separate
    example_pending_video example_select_pending example_input_flags
  by simp

section \<open>Reading a frame of a stereo pair\<close>

lemma fold_copy_planes2:
  "fold (copy_planes2 f0 f1) [0..<3] frame =
     frame\<lparr>data := (\<lambda>v p. if v = 0 \<and> p < 3 then data f0 0 p
                           else if v = 1 \<and> p < 3 then data f1 0 p else data frame v p),
           line_size := (\<lambda>v p. if v = 0 \<and> p < 3 then line_size f0 0 p
                                else if v = 1 \<and> p < 3 then line_size f1 0 p
                                else line_size frame v p)\<rparr>"
proof -
  have upt3: "[0..<3] = [0, 1, 2]"
    by (simp add: upt_rec numeral_3_eq_3)
  have d: "(data frame)(0 := (data frame 0)(0 := data f0 0 0, 1 := data f0 0 1, 2 := data f0 0 2),
                       1 := (data frame 1)(0 := data f1 0 0, 1 := data f1 0 1, 2 := data f1 0 2))
          = (\<lambda>v p. if v = 0 \<and> p < 3 then data f0 0 p
                           else if v = 1 \<and> p < 3 then data f1 0 p else data frame v p)"
    by (intro ext) (auto simp: numeral_3_eq_3 less_Suc_eq)
  have l: "(line_size frame)(0 := (line_size frame 0)(0 := line_size f0 0 0, 1 := line_size f0 0 1, 2 := line_size f0 0 2),
                       1 := (line_size frame 1)(0 := line_size f1 0 0, 1 := line_size f1 0 1, 2 := line_size f1 0 2))
          = (\<lambda>v p. if v = 0 \<and> p < 3 then line_size f0 0 p
                           else if v = 1 \<and> p < 3 then line_size f1 0 p else line_size frame v p)"
    by (intro ext) (auto simp: numeral_3_eq_3 less_Suc_eq)
  show ?thesis
    unfolding upt3 by (simp add: copy_planes2_def d [symmetric] l [symmetric] fun_upd_twist)
qed


text \<open>
  C4: when the layout is \<^verbatim>\<open>separate\<close>, \<^verbatim>\<open>finish_video_frame_read\<close> ends the read of
  flattened stream 0 and then that of flattened stream 1. If either of the two frames is
  invalid it returns the default frame, which is invalid. Only when both are valid it
  returns the current video format of the input with the plane pointers and strides of
  view 0 of the first frame in slot 0, those of view 0 of the second frame in slot 1, and
  the presentation time of the first frame.
\<close>

theorem finish_video_frame_read_separate:
  assumes "stereo_layout (m_video_frame st) = separate"
    and "0 \<le> m_active_video_stream st"
    and "get_video_stream st 0 = Inr (o0, s0)"
    and "get_video_stream st 1 = Inr (o1, s1)"
    and "media_object_at st o0 = Inr m0"
    and "media_object_finish_video_frame_read ext m0 s0 = (f0, m0')"
    and "media_object_at (put_media_object st o0 m0') o1 = Inr m1"
    and "media_object_finish_video_frame_read ext m1 s1 = (f1, m1')"
  shows "\<exists>frame st'. finish_video_frame_read ext st = Inr (frame, st')
     \<and> (\<not> is_valid f0 \<or> \<not> is_valid f1 \<longrightarrow> frame = video_frame_default \<and> \<not> is_valid frame)
     \<and> (is_valid f0 \<and> is_valid f1 \<longrightarrow>
          frame = (m_video_frame st)
                    \<lparr>data := (\<lambda>v p. if v = 0 \<and> p < 3 then data f0 0 p
                                     else if v = 1 \<and> p < 3 then data f1 0 p
                                     else data (m_video_frame st) v p),
                     line_size := (\<lambda>v p. if v = 0 \<and> p < 3 then line_size f0 0 p
                                          else if v = 1 \<and> p < 3 then line_size f1 0 p
                                          else line_size (m_video_frame st) v p),
                     presentation_time := presentation_time f0\<rparr>)"
proof -
  let ?st2 = "put_media_object (put_media_object st o0 m0') o1 m1'"
  have vf: "m_video_frame ?st2 = m_video_frame st"
    by (simp add: put_media_object_def)
  have run: "finish_video_frame_read ext st =
      (if \<not> is_valid f0 \<or> \<not> is_valid f1 then Inr (video_frame_default, ?st2)
       else Inr ((fold (copy_planes2 f0 f1) [0..<3] (m_video_frame ?st2))
                   \<lparr>presentation_time := presentation_time f0\<rparr>, ?st2))"
    unfolding finish_video_frame_read_def
    by (simp only: assms and_then_def sum.case prod.case Let_def if_True if_False
        not_True_eq_False not_False_eq_True simp_thms)
  have invalid: "\<not> is_valid video_frame_default"
    by (simp add: is_valid_def video_frame_default_def)
  show ?thesis
  proof (cases "\<not> is_valid f0 \<or> \<not> is_valid f1")
    case True
    then show ?thesis
      using run invalid by auto
  next
    case False
    then show ?thesis
      using run by (simp add: vf fold_copy_planes2)
  qed
qed


theorem finish_video_frame_read_separate_witness:
  "(\<exists>frame st'. finish_video_frame_read example_externals (seek example_input 0) = Inr (frame, st')
       \<and> data frame 0 1 = 601 \<and> data frame 1 1 = 501 \<and> line_size frame 1 2 = 5002
       \<and> presentation_time frame = 3 \<and> stereo_layout frame = separate)
   \<and> (\<exists>st'. finish_video_frame_read example_externals (seek example_input 8000000)
               = Inr (video_frame_default, st'))"
proof -
  from finish_video_frame_read_separate [OF example_reads(2,1,3,4,5) example_decode(1)
      example_reads(6) example_decode(2)]
  obtain frame st' where
    "finish_video_frame_read example_externals (seek example_input 0) = Inr (frame, st')"
    "frame = (m_video_frame (seek example_input 0))
                    \<lparr>data := (\<lambda>v p. if v = 0 \<and> p < 3 then data (example_frame left_source) 0 p
                                     else if v = 1 \<and> p < 3 then data (example_frame right_source) 0 p
                                     else data (m_video_frame (seek example_input 0)) v p),
                     line_size := (\<lambda>v p. if v = 0 \<and> p < 3 then line_size (example_frame left_source) 0 p
                                          else if v = 1 \<and> p < 3 then line_size (example_frame right_source) 0 p
                                          else line_size (m_video_frame (seek example_input 0)) v p),
                     presentation_time := presentation_time (example_frame left_source)\<rparr>"
    using example_frames_valid by blast
  then have both: "\<exists>frame st'. finish_video_frame_read example_externals (seek example_input 0) = Inr (frame, st')
       \<and> data frame 0 1 = 601 \<and> data frame 1 1 = 501 \<and> line_size frame 1 2 = 5002
       \<and> presentation_time frame = 3 \<and> stereo_layout frame = separate"
    by (simp add: example_frame_def left_source_def right_source_def seek_def example_input_def)
  from finish_video_frame_read_separate [OF example_reads(2,1,3,4,5) example_decode(3)
      example_reads(6) example_decode(4)]
  have "\<exists>st'. finish_video_frame_read example_externals (seek example_input 8000000)
               = Inr (video_frame_default, st')"
    using example_frames_valid by blast
  with both show ?thesis
    by blast
qed

section \<open>What a successful open leaves\<close>

lemma fold_audio_active_fields:
  "url (fold (\<lambda>j m'. audio_stream_set_active m' j (b j)) js m) = url m
   \<and> tag_pairs (fold (\<lambda>j m'. audio_stream_set_active m' j (b j)) js m) = tag_pairs m
   \<and> video (fold (\<lambda>j m'. audio_stream_set_active m' j (b j)) js m) = video m
   \<and> position (fold (\<lambda>j m'. audio_stream_set_active m' j (b j)) js m) = position m
   \<and> audio (fold (\<lambda>j m'. audio_stream_set_active m' j (b j)) js m)
       = fold (\<lambda>j xs. xs[j := (xs ! j)\<lparr>audio_active := b j\<rparr>]) js (audio m)"
  by (induction js arbitrary: m) (simp_all add: audio_stream_set_active_def)

lemma audio_set_audio_streams_active:
  "audio (set_audio_streams_active b m) = map (\<lambda>j. (audio m ! j)\<lparr>audio_active := b j\<rparr>) [0..<length (audio m)]"
  using fold_update_prefix [of "length (audio m)" "audio m" "\<lambda>j s. s\<lparr>audio_active := b j\<rparr>"]
  by (simp add: set_audio_streams_active_def fold_audio_active_fields media_object_audio_streams_def)

lemma source_contents_video_active [simp]:
  "source_contents (set_video_streams_active b m) = source_contents m"
proof -
  have "map (\<lambda>s. s\<lparr>video_active := False\<rparr>) (video (set_video_streams_active b m))
        = map (\<lambda>s. s\<lparr>video_active := False\<rparr>) (video m)"
    unfolding video_set_video_streams_active by (rule nth_equalityI) simp_all
  then show ?thesis
    by (cases m) (simp add: source_contents_def set_video_streams_active_def fold_set_active_fields)
qed

lemma source_contents_audio_active [simp]:
  "source_contents (set_audio_streams_active b m) = source_contents m"
proof -
  have "map (\<lambda>s. s\<lparr>audio_active := False\<rparr>) (audio (set_audio_streams_active b m))
        = map (\<lambda>s. s\<lparr>audio_active := False\<rparr>) (audio m)"
    unfolding audio_set_audio_streams_active by (rule nth_equalityI) simp_all
  then show ?thesis
    by (cases m) (simp add: source_contents_def set_audio_streams_active_def fold_audio_active_fields)
qed

lemma source_contents_seek [simp]: "source_contents (media_object_seek m pos) = source_contents m"
  by (simp add: source_contents_def media_object_seek_def)

lemma map_source_contents_upt:
  "(\<And>i m. source_contents (f i m) = source_contents m) \<Longrightarrow>
   map source_contents (map (\<lambda>i. f i (v ! i)) [0..<length v]) = map source_contents v"
  by (rule nth_equalityI) simp_all

lemma seek_contents:
  "seek st pos = st\<lparr>m_media_objects := m_media_objects (seek st pos)\<rparr>
   \<and> map source_contents (m_media_objects (seek st pos)) = map source_contents (m_media_objects st)"
  using map_source_contents_upt [of "\<lambda>i m. media_object_seek m pos" "m_media_objects st"]
  by (simp add: seek_def del: map_map)

lemma set_stereo_layout_contents:
  assumes "set_stereo_layout ext st l swap = Inr st'"
  shows "st' = st\<lparr>m_video_frame := m_video_frame st', m_media_objects := m_media_objects st'\<rparr>
     \<and> map source_contents (m_media_objects st') = map source_contents (m_media_objects st)"
proof -
  from assms obtain f where
    "st' = st\<lparr>m_video_frame := f\<rparr> \<or> (\<exists>pos. st' = seek (st\<lparr>m_video_frame := f\<rparr>) pos)"
    by (auto simp: set_stereo_layout_def and_then_def Let_def split: sum.splits if_splits prod.splits)
  then show ?thesis
  proof
    assume "st' = st\<lparr>m_video_frame := f\<rparr>"
    then show ?thesis by simp
  next
    assume "\<exists>pos. st' = seek (st\<lparr>m_video_frame := f\<rparr>) pos"
    then obtain pos where st': "st' = seek (st\<lparr>m_video_frame := f\<rparr>) pos"
      by blast
    show ?thesis
      using seek_contents [of "st\<lparr>m_video_frame := f\<rparr>" pos]
      unfolding st' by (simp add: seek_def)
  qed
qed

lemma select_video_stream_contents:
  assumes "select_video_stream ext st v = Inr st'"
  shows "st' = st\<lparr>m_active_video_stream := m_active_video_stream st',
                 m_video_frame := m_video_frame st', m_media_objects := m_media_objects st'\<rparr>
     \<and> map source_contents (m_media_objects st') = map source_contents (m_media_objects st)"
proof (cases "stereo_layout (m_video_frame st) = separate")
  case True
  then have "st' = st\<lparr>m_media_objects :=
                     map (\<lambda>i. set_video_streams_active (\<lambda>j. True) (m_media_objects st ! i))
                         [0..<length (m_media_objects st)]\<rparr>"
    using assms by (simp add: select_video_stream_def split: if_splits)
  then show ?thesis
    using map_source_contents_upt [of "\<lambda>i. set_video_streams_active (\<lambda>j. True)" "m_media_objects st"]
    by (simp del: map_map)
next
  case False
  then obtain st2 ob s where
    st2: "set_stereo_layout ext (st\<lparr>m_active_video_stream := v\<rparr>)
            (stereo_layout (m_video_frame st)) (stereo_layout_swap (m_video_frame st)) = Inr st2"
    and st': "st' = st2\<lparr>m_media_objects :=
                            map (\<lambda>i. set_video_streams_active (\<lambda>j. int i = ob \<and> int j = s)
                                       (m_media_objects st2 ! i))
                                [0..<length (m_media_objects st2)]\<rparr>"
    using assms
    by (auto simp: select_video_stream_def and_then_def Let_def split: if_splits sum.splits)
  note c = set_stereo_layout_contents [OF st2]
  have "map source_contents (m_media_objects st') = map source_contents (m_media_objects st2)"
    unfolding st'
    using map_source_contents_upt [of "\<lambda>i. set_video_streams_active (\<lambda>j. int i = ob \<and> int j = s)" "m_media_objects st2"]
    by (simp del: map_map)
  moreover have "st' = st\<lparr>m_active_video_stream := m_active_video_stream st',
                 m_video_frame := m_video_frame st', m_media_objects := m_media_objects st'\<rparr>"
    unfolding st' using c by (cases st2) (cases st, simp)
  ultimately show ?thesis
    using c by simp
qed

lemma select_audio_stream_contents:
  assumes "select_audio_stream st a = Inr st'"
  shows "st' = st\<lparr>m_active_audio_stream := m_active_audio_stream st',
                 m_media_objects := m_media_objects st'\<rparr>
     \<and> map source_contents (m_media_objects st') = map source_contents (m_media_objects st)"
proof -
  from assms obtain ob s where
    st': "st' = st\<lparr>m_active_audio_stream := a,
                   m_media_objects :=
                     map (\<lambda>i. set_audio_streams_active (\<lambda>j. int i = ob \<and> int j = s)
                                (m_media_objects st ! i))
                         [0..<length (m_media_objects st)]\<rparr>"
    by (auto simp: select_audio_stream_def and_then_def Let_def split: if_splits sum.splits)
  show ?thesis
    unfolding st'
    using map_source_contents_upt [of "\<lambda>i. set_audio_streams_active (\<lambda>j. int i = ob \<and> int j = s)" "m_media_objects st"]
    by (simp del: map_map)
qed

lemma set_active_video_stream_contents:
  assumes "set_active_video_stream ext st = Inr st'"
  shows "st' = st\<lparr>m_active_video_stream := m_active_video_stream st',
                 m_video_frame := m_video_frame st', m_media_objects := m_media_objects st'\<rparr>
     \<and> map source_contents (m_media_objects st') = map source_contents (m_media_objects st)"
proof -
  from assms obtain st2 where
    pick: "(if m_supports_stereo_layout_separate st
        then (let st1 = st\<lparr>m_active_video_stream := 0\<rparr>
              in and_then (get_video_stream st1 (m_active_video_stream st1)) (\<lambda>(ob, s).
                 and_then (media_object_at st1 ob) (\<lambda>m.
                 and_then (media_object_video_frame_template m s) (\<lambda>t.
                   Inr (st1\<lparr>m_video_frame := t\<lparr>stereo_layout := separate\<rparr>\<rparr>)))))
        else if video_streams st > 0
        then (let st1 = st\<lparr>m_active_video_stream := 0\<rparr>
              in and_then (get_video_stream st1 (m_active_video_stream st1)) (\<lambda>(ob, s).
                 and_then (media_object_at st1 ob) (\<lambda>m.
                 and_then (media_object_video_frame_template m s) (\<lambda>t.
                   Inr (st1\<lparr>m_video_frame := t\<rparr>)))))
        else Inr (st\<lparr>m_active_video_stream := - 1\<rparr>)) = Inr st2"
    and sel: "(if m_active_video_stream st2 \<ge> 0
               then select_video_stream ext st2 (m_active_video_stream st2)
               else Inr st2) = Inr st'"
    unfolding set_active_video_stream_def and_then_def [of _ "\<lambda>st2. if m_active_video_stream st2 \<ge> 0
               then select_video_stream ext st2 (m_active_video_stream st2)
               else Inr st2"]
    by (auto split: sum.splits)
  from pick have st2: "st2 = st\<lparr>m_active_video_stream := m_active_video_stream st2,
                                m_video_frame := m_video_frame st2\<rparr>"
    by (auto simp: and_then_def Let_def split: if_splits sum.splits prod.splits)
  show ?thesis
  proof (cases "m_active_video_stream st2 \<ge> 0")
    case True
    with sel have "select_video_stream ext st2 (m_active_video_stream st2) = Inr st'"
      by simp
    from select_video_stream_contents [OF this] st2 show ?thesis
      by (cases st') (cases st2, cases st, simp)
  next
    case False
    with sel have "st' = st2"
      by simp
    with st2 show ?thesis
      by (cases st2) (cases st, simp)
  qed
qed

lemma set_active_audio_stream_contents:
  assumes "set_active_audio_stream st = Inr st'"
  shows "st' = st\<lparr>m_active_audio_stream := m_active_audio_stream st',
                 m_audio_blob := m_audio_blob st', m_media_objects := m_media_objects st'\<rparr>
     \<and> map source_contents (m_media_objects st') = map source_contents (m_media_objects st)"
proof -
  from assms have
    "st' = st\<lparr>m_active_audio_stream := - 1\<rparr>
     \<or> (\<exists>t. select_audio_stream (st\<lparr>m_active_audio_stream := 0, m_audio_blob := t\<rparr>) 0 = Inr st')"
    by (auto simp: set_active_audio_stream_def and_then_def Let_def
        split: if_splits sum.splits prod.splits)
  then show ?thesis
  proof
    assume "st' = st\<lparr>m_active_audio_stream := - 1\<rparr>"
    then show ?thesis by simp
  next
    assume "\<exists>t. select_audio_stream (st\<lparr>m_active_audio_stream := 0, m_audio_blob := t\<rparr>) 0 = Inr st'"
    then obtain t where "select_audio_stream (st\<lparr>m_active_audio_stream := 0, m_audio_blob := t\<rparr>) 0 = Inr st'"
      by blast
    from select_audio_stream_contents [OF this] show ?thesis
      by (cases st') (cases st, simp)
  qed
qed

lemma set_initial_skip_contents:
  assumes "set_initial_skip ext st = Inr st'"
  shows "st' = st\<lparr>m_initial_skip := m_initial_skip st'\<rparr>"
  using assms
  by (auto simp: set_initial_skip_def and_then_def split: sum.splits option.splits)

lemma find_stereo_layout_contents:
  assumes "find_stereo_layout st = Inr st'"
  shows "st' = st\<lparr>m_supports_stereo_layout_separate := m_supports_stereo_layout_separate st'\<rparr>"
  using assms
  by (auto simp: find_stereo_layout_def and_then_def Let_def video_streams_def
      split: sum.splits if_splits prod.splits)

lemma fold_related:
  assumes "\<And>s. R s s" and "\<And>s t u. R s t \<Longrightarrow> R t u \<Longrightarrow> R s u" and "\<And>x s. R s (f x s)"
  shows "R s (fold f xs s)"
proof (induction xs arbitrary: s)
  case Nil
  show ?case by (simp add: assms(1))
next
  case (Cons x xs)
  have "R s (f x s)" by (rule assms(3))
  moreover have "R (f x s) (fold f xs (f x s))" by (rule Cons.IH)
  ultimately show ?case
    using assms(2) by auto
qed

lemma gather_metadata_contents:
  "gather_metadata ext st =
     st\<lparr>m_tag_names := m_tag_names (gather_metadata ext st),
        m_tag_values := m_tag_values (gather_metadata ext st)\<rparr>"
proof -
  define R :: "media_input \<Rightarrow> media_input \<Rightarrow> bool" where
    "R = (\<lambda>s s'. s' = s\<lparr>m_tag_names := m_tag_names s', m_tag_values := m_tag_values s'\<rparr>)"
  have refl: "R s s" for s
    by (simp add: R_def)
  have trans: "R s t \<Longrightarrow> R t u \<Longrightarrow> R s u" for s t u
    unfolding R_def by (cases s, cases t, cases u) simp
  have step: "R s (s\<lparr>m_tag_names := m_tag_names s @ [a], m_tag_values := m_tag_values s @ [b]\<rparr>)"
    for s a b
    by (simp add: R_def)
  have inner: "R s (fold (\<lambda>j st''. st''\<lparr>m_tag_names := m_tag_names st'' @ [a j],
                        m_tag_values := m_tag_values st'' @ [b j]\<rparr>) js s)" for a b js s
    by (rule fold_related [of R, OF refl trans step])
  have "R st (gather_metadata ext st)"
    unfolding gather_metadata_def Let_def
    by (rule fold_related [of R, OF refl trans inner])
  then show ?thesis
    by (simp add: R_def)
qed

lemma length_fold_snoc: "length (fold (\<lambda>j acc. acc @ [g j]) js acc) = length acc + length js"
  by (induction js arbitrary: acc) simp_all

lemma length_fold_sum:
  assumes "\<And>i acc. length (F i acc) = length acc + c i"
  shows "length (fold F is acc) = length acc + sum_list (map c is)"
  by (induction "is" arbitrary: acc) (simp_all add: assms)

lemma length_gather_video_stream_names:
  "length (gather_video_stream_names ext v names) = length names + length (concat (map video v))"
proof -
  have "length (gather_video_stream_names ext v names)
      = length names + sum_list (map (\<lambda>i. length (video (v ! i))) [0..<length v])"
    unfolding gather_video_stream_names_def
    by (rule length_fold_sum) (simp add: length_fold_snoc media_object_video_streams_def)
  also have "map (\<lambda>i. length (video (v ! i))) [0..<length v] = map (\<lambda>m. length (video m)) v"
    by (rule map_nth_upt)
  finally show ?thesis
    by (simp add: length_concat comp_def)
qed

lemma length_gather_audio_stream_names:
  "length (gather_audio_stream_names ext v names) = length names + length (concat (map audio v))"
proof -
  have "length (gather_audio_stream_names ext v names)
      = length names + sum_list (map (\<lambda>i. length (audio (v ! i))) [0..<length v])"
    unfolding gather_audio_stream_names_def
    by (rule length_fold_sum) (simp add: length_fold_snoc media_object_audio_streams_def)
  also have "map (\<lambda>i. length (audio (v ! i))) [0..<length v] = map (\<lambda>m. length (audio m)) v"
    by (rule map_nth_upt)
  finally show ?thesis
    by (simp add: length_concat comp_def)
qed

lemma open_success:
  assumes "media_input_open ext st urls = Inr st'"
  obtains v st6 st7 st8 st9 where
    "open_media_objects ext urls 0 (resize (m_media_objects st) (length urls)) = Inr v"
    "m_media_objects st6 = v"
    "m_video_stream_names st6 = gather_video_stream_names ext v (m_video_stream_names st)"
    "m_audio_stream_names st6 = gather_audio_stream_names ext v (m_audio_stream_names st)"
    "m_duration st6 = set_duration v"
    "set_initial_skip ext st6 = Inr st7"
    "find_stereo_layout st7 = Inr st8"
    "set_active_video_stream ext st8 = Inr st9"
    "set_active_audio_stream st9 = Inr st'"
    "print_summary st' = Inr ()"
proof -
  from assms obtain v where
    v: "open_media_objects ext urls 0 (resize (m_media_objects st) (length urls)) = Inr v"
    by (auto simp: media_input_open_def split: if_splits sum.splits)
  define st3 where "st3 = gather_metadata ext (st\<lparr>m_media_objects := v, m_id := construct_id v\<rparr>)"
  define st6 where "st6 = st3\<lparr>m_video_stream_names :=
                                gather_video_stream_names ext (m_media_objects st3) (m_video_stream_names st3),
                             m_audio_stream_names :=
                                gather_audio_stream_names ext (m_media_objects st3) (m_audio_stream_names st3),
                             m_duration := set_duration (m_media_objects st3)\<rparr>"
  have st3: "m_media_objects st3 = v" "m_video_stream_names st3 = m_video_stream_names st"
    "m_audio_stream_names st3 = m_audio_stream_names st"
    unfolding st3_def
    by (subst gather_metadata_contents, simp)+
  have run: "and_then (set_initial_skip ext st6) (\<lambda>st7.
                   and_then (find_stereo_layout st7) (\<lambda>st8.
                   and_then (set_active_video_stream ext st8) (\<lambda>st9.
                   and_then (set_active_audio_stream st9) (\<lambda>st10.
                   and_then (print_summary st10) (\<lambda>u. Inr st10))))) = Inr st'"
    using assms v unfolding media_input_open_def st6_def st3_def
    by (simp add: Let_def split: if_splits)
  then obtain st7 st8 st9 where
    "set_initial_skip ext st6 = Inr st7" "find_stereo_layout st7 = Inr st8"
    "set_active_video_stream ext st8 = Inr st9" "set_active_audio_stream st9 = Inr st'"
    "print_summary st' = Inr ()"
    by (auto simp: and_then_def split: sum.splits)
  moreover have "m_media_objects st6 = v"
    "m_video_stream_names st6 = gather_video_stream_names ext v (m_video_stream_names st)"
    "m_audio_stream_names st6 = gather_audio_stream_names ext v (m_audio_stream_names st)"
    "m_duration st6 = set_duration v"
    by (simp_all add: st6_def st3)
  ultimately show thesis
    using that v by blast
qed

lemma set_active_video_stream_steps:
  assumes "set_active_video_stream ext st = Inr st'"
  obtains st2 where
    "st2 = st\<lparr>m_active_video_stream := m_active_video_stream st2, m_video_frame := m_video_frame st2\<rparr>"
    "if 0 \<le> m_active_video_stream st2
     then select_video_stream ext st2 (m_active_video_stream st2) = Inr st' else st' = st2"
proof -
  from assms obtain st2 where
    pick: "(if m_supports_stereo_layout_separate st
        then (let st1 = st\<lparr>m_active_video_stream := 0\<rparr>
              in and_then (get_video_stream st1 (m_active_video_stream st1)) (\<lambda>(ob, s).
                 and_then (media_object_at st1 ob) (\<lambda>m.
                 and_then (media_object_video_frame_template m s) (\<lambda>t.
                   Inr (st1\<lparr>m_video_frame := t\<lparr>stereo_layout := separate\<rparr>\<rparr>)))))
        else if video_streams st > 0
        then (let st1 = st\<lparr>m_active_video_stream := 0\<rparr>
              in and_then (get_video_stream st1 (m_active_video_stream st1)) (\<lambda>(ob, s).
                 and_then (media_object_at st1 ob) (\<lambda>m.
                 and_then (media_object_video_frame_template m s) (\<lambda>t.
                   Inr (st1\<lparr>m_video_frame := t\<rparr>)))))
        else Inr (st\<lparr>m_active_video_stream := - 1\<rparr>)) = Inr st2"
    and sel: "(if m_active_video_stream st2 \<ge> 0
               then select_video_stream ext st2 (m_active_video_stream st2)
               else Inr st2) = Inr st'"
    unfolding set_active_video_stream_def and_then_def [of _ "\<lambda>st2. if m_active_video_stream st2 \<ge> 0
               then select_video_stream ext st2 (m_active_video_stream st2)
               else Inr st2"]
    by (auto split: sum.splits)
  from pick have "st2 = st\<lparr>m_active_video_stream := m_active_video_stream st2,
                                m_video_frame := m_video_frame st2\<rparr>"
    by (auto simp: and_then_def Let_def split: if_splits sum.splits prod.splits)
  moreover from sel have "if 0 \<le> m_active_video_stream st2
     then select_video_stream ext st2 (m_active_video_stream st2) = Inr st' else st' = st2"
    by (auto split: if_splits)
  ultimately show thesis
    by (rule that)
qed

lemma active_video_stream_needs_video:
  assumes "set_active_video_stream ext st = Inr st'" and "0 \<le> m_active_video_stream st'"
  shows "0 < video_streams st"
proof -
  from set_active_video_stream_steps [OF assms(1)] obtain st2 where
    st2: "st2 = st\<lparr>m_active_video_stream := m_active_video_stream st2, m_video_frame := m_video_frame st2\<rparr>"
    and sel: "if 0 \<le> m_active_video_stream st2
     then select_video_stream ext st2 (m_active_video_stream st2) = Inr st' else st' = st2"
    by blast
  have names: "video_streams st2 = video_streams st"
    using st2 by (cases st2) (cases st, simp add: video_streams_def)
  show ?thesis
  proof (cases "0 \<le> m_active_video_stream st2")
    case True
    with sel have "select_video_stream ext st2 (m_active_video_stream st2) = Inr st'"
      by simp
    then have "m_active_video_stream st2 < video_streams st2"
      by (simp add: select_video_stream_def split: if_splits)
    with True names show ?thesis
      by simp
  next
    case False
    with sel assms(2) show ?thesis
      by simp
  qed
qed

lemma set_initial_skip_keeps:
  assumes "set_initial_skip ext st = Inr st'"
  shows "m_media_objects st' = m_media_objects st"
    "m_video_stream_names st' = m_video_stream_names st"
    "m_audio_stream_names st' = m_audio_stream_names st" "m_duration st' = m_duration st"
  using set_initial_skip_contents [OF assms] by (cases st', cases st, simp)+

lemma find_stereo_layout_keeps:
  assumes "find_stereo_layout st = Inr st'"
  shows "m_media_objects st' = m_media_objects st"
    "m_video_stream_names st' = m_video_stream_names st"
    "m_audio_stream_names st' = m_audio_stream_names st" "m_duration st' = m_duration st"
  using find_stereo_layout_contents [OF assms] by (cases st', cases st, simp)+

lemma set_active_video_stream_keeps:
  assumes "set_active_video_stream ext st = Inr st'"
  shows "m_video_stream_names st' = m_video_stream_names st"
    "m_audio_stream_names st' = m_audio_stream_names st" "m_duration st' = m_duration st"
    "m_supports_stereo_layout_separate st' = m_supports_stereo_layout_separate st"
    "map source_contents (m_media_objects st') = map source_contents (m_media_objects st)"
  using set_active_video_stream_contents [OF assms, THEN conjunct1]
    set_active_video_stream_contents [OF assms, THEN conjunct2]
  by (cases st', cases st, simp)+

lemma set_active_audio_stream_keeps:
  assumes "set_active_audio_stream st = Inr st'"
  shows "m_video_stream_names st' = m_video_stream_names st"
    "m_audio_stream_names st' = m_audio_stream_names st" "m_duration st' = m_duration st"
    "m_supports_stereo_layout_separate st' = m_supports_stereo_layout_separate st"
    "m_active_video_stream st' = m_active_video_stream st"
    "map source_contents (m_media_objects st') = map source_contents (m_media_objects st)"
  using set_active_audio_stream_contents [OF assms, THEN conjunct1]
    set_active_audio_stream_contents [OF assms, THEN conjunct2]
  by (cases st', cases st, simp)+

lemma open_new:
  assumes "media_input_open ext (media_input_new b) urls = Inr st'"
  obtains v st7 st8 where
    "map source_contents (m_media_objects st') = map source_contents v"
    "m_video_stream_names st' = gather_video_stream_names ext v []"
    "m_audio_stream_names st' = gather_audio_stream_names ext v []"
    "m_duration st' = set_duration v"
    "m_media_objects st7 = v"
    "m_video_stream_names st7 = gather_video_stream_names ext v []"
    "find_stereo_layout st7 = Inr st8"
    "m_supports_stereo_layout_separate st' = m_supports_stereo_layout_separate st8"
    "0 < video_streams st'"
proof -
  obtain v st6 st7 st8 st9 where
    v: "m_media_objects st6 = v"
      "m_video_stream_names st6 = gather_video_stream_names ext v (m_video_stream_names (media_input_new b))"
      "m_audio_stream_names st6 = gather_audio_stream_names ext v (m_audio_stream_names (media_input_new b))"
      "m_duration st6 = set_duration v"
    and p7: "set_initial_skip ext st6 = Inr st7"
    and p8: "find_stereo_layout st7 = Inr st8"
    and p9: "set_active_video_stream ext st8 = Inr st9"
    and p10: "set_active_audio_stream st9 = Inr st'"
    and p11: "print_summary st' = Inr ()"
    by (rule open_success [OF assms]) (rule that; assumption)
  note e7 = set_initial_skip_keeps [OF p7]
  note e8 = find_stereo_layout_keeps [OF p8]
  note e9 = set_active_video_stream_keeps [OF p9]
  note e10 = set_active_audio_stream_keeps [OF p10]
  have new: "m_video_stream_names (media_input_new b) = []" "m_audio_stream_names (media_input_new b) = []"
    by (simp_all add: media_input_new_def)
  have "0 \<le> m_active_video_stream st'"
    using p11 by (simp add: print_summary_def split: if_splits)
  then have "0 \<le> m_active_video_stream st9"
    by (simp only: e10(5))
  then have "0 < video_streams st8"
    by (rule active_video_stream_needs_video [OF p9])
  then have pos: "0 < video_streams st'"
    by (simp add: video_streams_def e9(1) e10(1))
  show thesis
  proof (rule that [of v st7 st8])
    show "map source_contents (m_media_objects st') = map source_contents v"
      by (simp only: e10(6) e9(5) e8(1) e7(1) v(1))
    show "m_video_stream_names st' = gather_video_stream_names ext v []"
      by (simp only: e10(1) e9(1) e8(2) e7(2) v(2) new)
    show "m_audio_stream_names st' = gather_audio_stream_names ext v []"
      by (simp only: e10(2) e9(2) e8(3) e7(3) v(3) new)
    show "m_duration st' = set_duration v"
      by (simp only: e10(3) e9(3) e8(4) e7(4) v(4))
    show "m_media_objects st7 = v"
      by (simp only: e7(1) v(1))
    show "m_video_stream_names st7 = gather_video_stream_names ext v []"
      by (simp only: e7(2) v(2) new)
    show "find_stereo_layout st7 = Inr st8"
      by (rule p8)
    show "m_supports_stereo_layout_separate st' = m_supports_stereo_layout_separate st8"
      by (simp only: e10(4) e9(4))
    show "0 < video_streams st'"
      by (rule pos)
  qed
qed

section \<open>Flattened stream tables\<close>

lemma get_video_stream_loop_counts:
  "get_video_stream_loop v k g = get_stream_loop (map media_object_video_streams v) k g"
  by (induction v arbitrary: k g) simp_all

lemma get_audio_stream_loop_counts:
  "get_audio_stream_loop v k g = get_stream_loop (map media_object_audio_streams v) k g"
  by (induction v arbitrary: k g) simp_all

lemma sum_list_nonneg_int: "\<forall>c\<in>set cs. (0::int) \<le> c \<Longrightarrow> 0 \<le> sum_list cs"
  by (induction cs) simp_all

lemma get_stream_loop_enumerates:
  assumes "\<forall>c\<in>set cs. 0 \<le> c"
  shows "map (\<lambda>g. get_stream_loop cs k (int g)) [0..<nat (sum_list cs)]
       = map Some (concat (map (\<lambda>i. map (\<lambda>j. (k + int i, int j)) [0..<nat (cs ! i)]) [0..<length cs]))"
  using assms
proof (induction cs arbitrary: k)
  case Nil
  show ?case by simp
next
  case (Cons c cs)
  then have c: "0 \<le> c" and cs: "\<forall>c\<in>set cs. 0 \<le> c"
    by simp_all
  have total: "nat (sum_list (c # cs)) = nat c + nat (sum_list cs)"
    using c sum_list_nonneg_int [OF cs] by (simp add: nat_add_distrib)
  have "[0..<nat c + nat (sum_list cs)] = [0..<nat c] @ [nat c..<nat c + nat (sum_list cs)]"
    by (rule upt_add_eq_append) simp
  also have "[nat c..<nat c + nat (sum_list cs)] = map (\<lambda>g. g + nat c) [0..<nat (sum_list cs)]"
    unfolding map_add_upt by (simp add: add.commute)
  finally have split: "[0..<nat c + nat (sum_list cs)]
      = [0..<nat c] @ map (\<lambda>g. g + nat c) [0..<nat (sum_list cs)]" .
  have first: "map (\<lambda>g. get_stream_loop (c # cs) k (int g)) [0..<nat c]
        = map Some (map (\<lambda>j. (k, int j)) [0..<nat c])"
    by auto
  have rest: "map (\<lambda>g. get_stream_loop (c # cs) k (int g)) (map (\<lambda>g. g + nat c) [0..<nat (sum_list cs)])
        = map (\<lambda>g. get_stream_loop cs (k + 1) (int g)) [0..<nat (sum_list cs)]"
    using c by (simp add: comp_def)
  have blocks: "map (\<lambda>i. map (\<lambda>j. (k + int i, int j)) [0..<nat ((c # cs) ! i)]) [0..<length (c # cs)]
        = map (\<lambda>j. (k, int j)) [0..<nat c]
          # map (\<lambda>i. map (\<lambda>j. (k + 1 + int i, int j)) [0..<nat (cs ! i)]) [0..<length cs]"
  proof -
    have "[0..<length (c # cs)] = 0 # map Suc [0..<length cs]"
      by (simp add: upt_conv_Cons map_Suc_upt del: upt_Suc)
    then show ?thesis
      by (simp add: add.assoc del: upt_Suc)
  qed
  show ?case
    unfolding total split blocks
    by (simp only: map_append first rest Cons.IH [OF cs] concat.simps)
qed

lemma stream_pairs_distinct: "distinct (stream_pairs cs)"
proof -
  have "distinct (concat (map (\<lambda>i. map (\<lambda>j. (int i, int j)) [0..<n i]) is))" if "distinct is"
    for n :: "nat \<Rightarrow> nat" and "is"
    using that by (induction "is") (auto simp: distinct_map inj_on_def)
  from this [of "[0..<length cs]" "\<lambda>i. nat (cs ! i)"] show ?thesis
    by (simp add: stream_pairs_def)
qed

lemma enumeration_bijection:
  fixes f :: "int \<Rightarrow> error + int \<times> int"
  assumes "map (\<lambda>g. f (int g)) [0..<nat n] = map Inr (stream_pairs cs)" and "0 \<le> n"
  shows "bij_betw f {0..<n} (Inr ` set (stream_pairs cs))"
proof -
  have A: "{0..<n} = int ` set [0..<nat n]"
    using assms(2) by (simp add: image_int_atLeastLessThan)
  have "distinct (map (f \<circ> int) [0..<nat n])"
    using assms(1) stream_pairs_distinct [of cs] by (simp add: comp_def distinct_map)
  then have "inj_on (f \<circ> int) (set [0..<nat n])"
    by (simp add: distinct_map)
  then have inj: "inj_on f (int ` set [0..<nat n])"
    by (simp add: comp_inj_on_iff [symmetric])
  have "f ` int ` set [0..<nat n] = set (map (\<lambda>g. f (int g)) [0..<nat n])"
    by (simp add: image_image)
  also have "\<dots> = Inr ` set (stream_pairs cs)"
    unfolding assms(1) by simp
  finally show ?thesis
    unfolding A bij_betw_def using inj by simp
qed

lemma get_video_stream_enumerates:
  assumes "video_streams st = sum_list (map media_object_video_streams (m_media_objects st))"
  shows "map (\<lambda>g. get_video_stream st (int g)) [0..<nat (video_streams st)]
       = map Inr (stream_pairs (map media_object_video_streams (m_media_objects st)))"
proof -
  let ?cs = "map media_object_video_streams (m_media_objects st)"
  have nonneg: "\<forall>c\<in>set ?cs. 0 \<le> c"
    by (auto simp: media_object_video_streams_def)
  have "map (\<lambda>g. get_video_stream st (int g)) [0..<nat (video_streams st)]
      = map (\<lambda>g. case get_stream_loop ?cs 0 (int g) of None \<Rightarrow> Inl Uninitialised_read | Some r \<Rightarrow> Inr r)
            [0..<nat (video_streams st)]"
    by (rule map_cong) (auto simp: get_video_stream_def get_video_stream_loop_counts)
  also have "\<dots> = map (\<lambda>r. case r of None \<Rightarrow> Inl Uninitialised_read | Some r \<Rightarrow> Inr r)
                     (map (\<lambda>g. get_stream_loop ?cs 0 (int g)) [0..<nat (sum_list ?cs)])"
    by (simp add: assms comp_def)
  also have "\<dots> = map Inr (stream_pairs ?cs)"
    unfolding get_stream_loop_enumerates [OF nonneg] by (simp add: stream_pairs_def comp_def)
  finally show ?thesis .
qed

lemma get_audio_stream_enumerates:
  assumes "audio_streams st = sum_list (map media_object_audio_streams (m_media_objects st))"
  shows "map (\<lambda>g. get_audio_stream st (int g)) [0..<nat (audio_streams st)]
       = map Inr (stream_pairs (map media_object_audio_streams (m_media_objects st)))"
proof -
  let ?cs = "map media_object_audio_streams (m_media_objects st)"
  have nonneg: "\<forall>c\<in>set ?cs. 0 \<le> c"
    by (auto simp: media_object_audio_streams_def)
  have "map (\<lambda>g. get_audio_stream st (int g)) [0..<nat (audio_streams st)]
      = map (\<lambda>g. case get_stream_loop ?cs 0 (int g) of None \<Rightarrow> Inl Uninitialised_read | Some r \<Rightarrow> Inr r)
            [0..<nat (audio_streams st)]"
    by (rule map_cong) (auto simp: get_audio_stream_def get_audio_stream_loop_counts)
  also have "\<dots> = map (\<lambda>r. case r of None \<Rightarrow> Inl Uninitialised_read | Some r \<Rightarrow> Inr r)
                     (map (\<lambda>g. get_stream_loop ?cs 0 (int g)) [0..<nat (sum_list ?cs)])"
    by (simp add: assms comp_def)
  also have "\<dots> = map Inr (stream_pairs ?cs)"
    unfolding get_stream_loop_enumerates [OF nonneg] by (simp add: stream_pairs_def comp_def)
  finally show ?thesis .
qed

lemma sum_video_counts:
  "sum_list (map media_object_video_streams v) = int (length (concat (map video v)))"
  by (induction v) (simp_all add: media_object_video_streams_def)

lemma sum_audio_counts:
  "sum_list (map media_object_audio_streams v) = int (length (concat (map audio v)))"
  by (induction v) (simp_all add: media_object_audio_streams_def)

lemma contents_map:
  assumes "map source_contents a = map source_contents b" and "\<And>m. h m = g (source_contents m)"
  shows "map h a = map h b"
proof -
  have "map h a = map g (map source_contents a)" "map h b = map g (map source_contents b)"
    by (simp_all add: assms(2))
  then show ?thesis
    using assms(1) by simp
qed

lemma contents_video_counts:
  assumes "map source_contents a = map source_contents b"
  shows "map media_object_video_streams a = map media_object_video_streams b"
  using assms
  by (rule contents_map [where g = media_object_video_streams])
     (simp add: media_object_video_streams_def source_contents_def)

lemma contents_audio_counts:
  assumes "map source_contents a = map source_contents b"
  shows "map media_object_audio_streams a = map media_object_audio_streams b"
  using assms
  by (rule contents_map [where g = media_object_audio_streams])
     (simp add: media_object_audio_streams_def source_contents_def)

lemma contents_durations:
  assumes "map source_contents a = map source_contents b"
  shows "map (\<lambda>m. map video_duration_us (video m) @ map audio_duration_us (audio m)) a
       = map (\<lambda>m. map video_duration_us (video m) @ map audio_duration_us (audio m)) b"
  using assms
  by (rule contents_map
        [where g = "\<lambda>m. map video_duration_us (video m) @ map audio_duration_us (audio m)"])
     (simp add: source_contents_def comp_def)

lemma contents_templates:
  assumes "map source_contents a = map source_contents b"
  shows "map video_template (concat (map video a)) = map video_template (concat (map video b))"
proof -
  have "map (\<lambda>m. map video_template (video m)) a = map (\<lambda>m. map video_template (video m)) b"
    using assms
    by (rule contents_map [where g = "\<lambda>m. map video_template (video m)"])
       (simp add: source_contents_def comp_def)
  then show ?thesis
    by (simp add: map_concat comp_def)
qed

section \<open>When open succeeds\<close>

lemma get_audio_stream_loop_flat:
  assumes "0 \<le> g" and "g < int (length (concat (map audio v)))"
  shows "\<exists>i j. get_audio_stream_loop v k g = Some (k + int i, int j)
            \<and> i < length v \<and> j < length (audio (v ! i))
            \<and> audio (v ! i) ! j = concat (map audio v) ! nat g
            \<and> g = int (length (concat (map audio (take i v)))) + int j"
  using assms
proof (induction v arbitrary: k g)
  case Nil
  then show ?case by simp
next
  case (Cons m ms)
  show ?case
  proof (cases "media_object_audio_streams m < g + 1")
    case True
    then have ge: "int (length (audio m)) \<le> g"
      by (simp add: media_object_audio_streams_def)
    let ?g = "g - media_object_audio_streams m"
    have "0 \<le> ?g" and "?g < int (length (concat (map audio ms)))"
      using ge Cons.prems by (simp_all add: media_object_audio_streams_def)
    from Cons.IH [OF this, of "k + 1"] obtain i j where
      ij: "get_audio_stream_loop ms (k + 1) ?g = Some (k + 1 + int i, int j)"
        "i < length ms" "j < length (audio (ms ! i))"
        "audio (ms ! i) ! j = concat (map audio ms) ! nat ?g"
        "?g = int (length (concat (map audio (take i ms)))) + int j"
      by blast
    have nth: "concat (map audio (m # ms)) ! nat g = concat (map audio ms) ! nat ?g"
      using ge Cons.prems(1)
      by (simp add: nth_append media_object_audio_streams_def nat_diff_distrib)
    show ?thesis
      apply (rule exI [of _ "Suc i"], rule exI [of _ j])
      using True ij nth by (simp add: media_object_audio_streams_def)
  next
    case False
    then have lt: "g < int (length (audio m))"
      by (simp add: media_object_audio_streams_def)
    then have lt': "nat g < length (audio m)"
      using Cons.prems(1) by linarith
    show ?thesis
      apply (rule exI [of _ 0], rule exI [of _ "nat g"])
      using False lt' Cons.prems(1) by (simp add: nth_append)
  qed
qed

lemma get_audio_stream_flat:
  assumes "audio_streams st = int (length (flattened_audio_streams st))"
    and "0 \<le> g" and "g < audio_streams st"
  shows "\<exists>i j. get_audio_stream st g = Inr (int i, int j)
            \<and> i < length (m_media_objects st) \<and> j < length (audio (m_media_objects st ! i))
            \<and> audio (m_media_objects st ! i) ! j = flattened_audio_streams st ! nat g
            \<and> g = int (length (concat (map audio (take i (m_media_objects st))))) + int j"
proof -
  have "g < int (length (concat (map audio (m_media_objects st))))"
    using assms by (simp add: flattened_audio_streams_def)
  from get_audio_stream_loop_flat [OF assms(2) this, of 0] obtain i j where
    ij: "get_audio_stream_loop (m_media_objects st) 0 g = Some (int i, int j)"
      "i < length (m_media_objects st)" "j < length (audio (m_media_objects st ! i))"
      "audio (m_media_objects st ! i) ! j = concat (map audio (m_media_objects st)) ! nat g"
      "g = int (length (concat (map audio (take i (m_media_objects st))))) + int j"
    by auto
  show ?thesis
    apply (rule exI [of _ i], rule exI [of _ j])
    using ij assms(3) by (simp add: get_audio_stream_def flattened_audio_streams_def)
qed

lemma audio_blob_template_nth:
  "j < length (audio m) \<Longrightarrow>
   media_object_audio_blob_template m (int j) = Inr (audio_template (audio m ! j))"
  by (simp add: media_object_audio_blob_template_def audio_stream_at_def
      media_object_audio_streams_def and_then_def)


lemma tables_match_flat:
  "tables_match st =
     (video_streams st = int (length (flattened_video_streams st))
      \<and> audio_streams st = int (length (flattened_audio_streams st)))"
  by (simp add: tables_match_def sum_video_counts sum_audio_counts flattened_video_streams_def
      flattened_audio_streams_def)

lemma tables_match_kept:
  assumes "m_video_stream_names st' = m_video_stream_names st"
    and "m_audio_stream_names st' = m_audio_stream_names st"
    and "map source_contents (m_media_objects st') = map source_contents (m_media_objects st)"
  shows "tables_match st' = tables_match st"
  by (simp add: tables_match_def video_streams_def audio_streams_def assms(1,2)
      contents_video_counts [OF assms(3)] contents_audio_counts [OF assms(3)])

lemma for_each_all: "(\<And>x. x \<in> set xs \<Longrightarrow> f x = Inr ()) \<Longrightarrow> for_each f xs = Inr ()"
  by (induction xs) simp_all

lemma print_summary_total:
  assumes "tables_match st" and "0 \<le> m_active_video_stream st"
  shows "print_summary st = Inr ()"
proof -
  have t: "video_streams st = int (length (flattened_video_streams st))"
    "audio_streams st = int (length (flattened_audio_streams st))"
    using assms(1) by (simp_all add: tables_match_flat)
  have video: "and_then (get_video_stream st (int i)) (\<lambda>(ob, s).
                  and_then (media_object_at st ob) (\<lambda>m.
                  and_then (media_object_video_frame_template m s) (\<lambda>t. Inr ()))) = Inr ()"
    if "i \<in> set [0..<nat (video_streams st)]" for i
  proof -
    from that have "0 \<le> int i" "int i < video_streams st"
      by auto
    from get_video_stream_flat [OF t(1) this] obtain k j where
      "get_video_stream st (int i) = Inr (int k, int j)" "k < length (m_media_objects st)"
      "j < length (video (m_media_objects st ! k))"
      by blast
    then show ?thesis
      by (simp add: and_then_def media_object_at_nth video_frame_template_nth)
  qed
  have audio: "and_then (get_audio_stream st (int i)) (\<lambda>(ob, s).
                  and_then (media_object_at st ob) (\<lambda>m.
                  and_then (media_object_audio_blob_template m s) (\<lambda>t. Inr ()))) = Inr ()"
    if "i \<in> set [0..<nat (audio_streams st)]" for i
  proof -
    from that have "0 \<le> int i" "int i < audio_streams st"
      by auto
    from get_audio_stream_flat [OF t(2) this] obtain k j where
      "get_audio_stream st (int i) = Inr (int k, int j)" "k < length (m_media_objects st)"
      "j < length (audio (m_media_objects st ! k))"
      by blast
    then show ?thesis
      by (simp add: and_then_def media_object_at_nth audio_blob_template_nth)
  qed
  have fv: "for_each (\<lambda>i. and_then (get_video_stream st (int i)) (\<lambda>(ob, s).
                  and_then (media_object_at st ob) (\<lambda>m.
                  and_then (media_object_video_frame_template m s) (\<lambda>t. Inr ()))))
               [0..<nat (video_streams st)] = Inr ()"
    by (rule for_each_all) (rule video)
  have fa: "for_each (\<lambda>i. and_then (get_audio_stream st (int i)) (\<lambda>(ob, s).
                  and_then (media_object_at st ob) (\<lambda>m.
                  and_then (media_object_audio_blob_template m s) (\<lambda>t. Inr ()))))
               [0..<nat (audio_streams st)] = Inr ()"
    by (rule for_each_all) (rule audio)
  show ?thesis
    unfolding print_summary_def fv fa using assms(2) by (simp add: and_then_def)
qed

lemma gather_metadata_lengths:
  assumes "length (m_tag_values st) = length (m_tag_names st)"
  shows "length (m_tag_values (gather_metadata ext st)) = length (m_tag_names (gather_metadata ext st))"
proof -
  define R :: "media_input \<Rightarrow> media_input \<Rightarrow> bool" where
    "R = (\<lambda>s s'. length (m_tag_values s) = length (m_tag_names s)
                  \<longrightarrow> length (m_tag_values s') = length (m_tag_names s'))"
  have refl: "R s s" for s
    by (simp add: R_def)
  have trans: "R s t \<Longrightarrow> R t u \<Longrightarrow> R s u" for s t u
    by (simp add: R_def)
  have step: "R s (s\<lparr>m_tag_names := m_tag_names s @ [a], m_tag_values := m_tag_values s @ [b]\<rparr>)"
    for s a b
    by (simp add: R_def)
  have inner: "R s (fold (\<lambda>j st''. st''\<lparr>m_tag_names := m_tag_names st'' @ [a j],
                        m_tag_values := m_tag_values st'' @ [b j]\<rparr>) js s)" for a b js s
    by (rule fold_related [of R, OF refl trans step])
  have "R st (gather_metadata ext st)"
    unfolding gather_metadata_def Let_def
    by (rule fold_related [of R, OF refl trans inner])
  then show ?thesis
    using assms by (simp add: R_def)
qed

lemma set_initial_skip_total:
  assumes "length (m_tag_values st) = length (m_tag_names st)"
  shows "\<exists>st'. set_initial_skip ext st = Inr st'"
proof -
  have "\<exists>s. tag_value st name = Inr s" for name
  proof (cases "find (\<lambda>i. name = m_tag_names st ! i) [0..<length (m_tag_names st)]")
    case None
    then show ?thesis by (simp add: tag_value_def)
  next
    case (Some i)
    then have "i \<in> set [0..<length (m_tag_names st)]"
      by (auto simp: find_Some_iff in_set_conv_nth)
    then show ?thesis
      using Some assms by (simp add: tag_value_def)
  qed
  then obtain s where "tag_value st ''StereoscopicSkip'' = Inr s"
    by blast
  then show ?thesis
    by (simp add: set_initial_skip_def and_then_def split: option.splits)
qed

lemma find_stereo_layout_total:
  assumes "video_streams st = int (length (flattened_video_streams st))"
  shows "\<exists>st'. find_stereo_layout st = Inr st'"
proof (cases "video_streams st = 2")
  case False
  then show ?thesis
    by (simp add: find_stereo_layout_def Let_def video_streams_def)
next
  case True
  let ?st1 = "st\<lparr>m_supports_stereo_layout_separate := False\<rparr>"
  have t1: "video_streams ?st1 = int (length (flattened_video_streams ?st1))" "video_streams ?st1 = 2"
    using assms True by (simp_all add: video_streams_def flattened_video_streams_def)
  from get_video_stream_flat [OF t1(1), of 0] t1(2) obtain i0 j0 where
    r0: "get_video_stream ?st1 0 = Inr (int i0, int j0)"
      "i0 < length (m_media_objects ?st1)" "j0 < length (video (m_media_objects ?st1 ! i0))"
    by auto
  from get_video_stream_flat [OF t1(1), of 1] t1(2) obtain i1 j1 where
    r1: "get_video_stream ?st1 1 = Inr (int i1, int j1)"
      "i1 < length (m_media_objects ?st1)" "j1 < length (video (m_media_objects ?st1 ! i1))"
    by auto
  show ?thesis
    unfolding find_stereo_layout_def Let_def
    by (simp only: t1(2) r0(1) r1(1) media_object_at_nth [OF r0(2)] media_object_at_nth [OF r1(2)]
        video_frame_template_nth [OF r0(3)] video_frame_template_nth [OF r1(3)]
        and_then_def sum.case prod.case if_True simp_thms) auto
qed

lemma stereo_layout_is_supported_value:
  assumes "video_streams st = int (length (flattened_video_streams st))"
    and "0 \<le> m_active_video_stream st" and "m_active_video_stream st < video_streams st"
  shows "stereo_layout_is_supported st l swap =
     Inr (\<not> ((l = left_right \<or> l = left_right_half)
                \<and> odd (raw_width (video_template (flattened_video_streams st ! nat (m_active_video_stream st))))
             \<or> (l = top_bottom \<or> l = top_bottom_half \<or> l = even_odd_rows)
                \<and> odd (raw_height (video_template (flattened_video_streams st ! nat (m_active_video_stream st))))
             \<or> l = separate \<and> \<not> m_supports_stereo_layout_separate st))"
proof -
  let ?a = "m_active_video_stream st"
  let ?t = "video_template (flattened_video_streams st ! nat ?a)"
  from get_video_stream_flat [OF assms] obtain i j where
    ij: "get_video_stream st ?a = Inr (int i, int j)"
      "i < length (m_media_objects st)" "j < length (video (m_media_objects st ! i))"
      "video (m_media_objects st ! i) ! j = flattened_video_streams st ! nat ?a"
    by blast
  have m: "media_object_at st (int i) = Inr (m_media_objects st ! i)"
    using ij(2) by (rule media_object_at_nth)
  have t: "media_object_video_frame_template (m_media_objects st ! i) (int j) = Inr ?t"
    using video_frame_template_nth [OF ij(3)] ij(4) by simp
  have pre: "\<not> video_streams st < 1"
    using assms(2,3) by linarith
  have "stereo_layout_is_supported st l swap =
         Inr (if ((l = left_right \<or> l = left_right_half) \<and> c_rem (raw_width ?t) 2 \<noteq> 0)
                     \<or> ((l = top_bottom \<or> l = top_bottom_half) \<and> c_rem (raw_height ?t) 2 \<noteq> 0)
                     \<or> (l = even_odd_rows \<and> c_rem (raw_height ?t) 2 \<noteq> 0)
                     \<or> (l = separate \<and> \<not> m_supports_stereo_layout_separate st)
                  then False else True)"
    unfolding stereo_layout_is_supported_def
    by (simp only: pre assms(2,3) ij(1) m t and_then_def if_False if_True not_True_eq_False
        not_False_eq_True sum.case prod.case)
  then show ?thesis
    unfolding c_rem_2_odd by auto
qed

lemma set_stereo_layout_value:
  assumes "video_streams st = int (length (flattened_video_streams st))"
    and "0 \<le> m_active_video_stream st" and "m_active_video_stream st < video_streams st"
    and "l \<noteq> separate"
    and "layout_fits ((video_template (flattened_video_streams st ! nat (m_active_video_stream st)))
                        \<lparr>stereo_layout := l\<rparr>)"
  shows "set_stereo_layout ext st l swap =
     Inr (st\<lparr>m_video_frame :=
               set_view_dimensions ext
                 ((video_template (flattened_video_streams st ! nat (m_active_video_stream st)))
                    \<lparr>stereo_layout := l, stereo_layout_swap := swap\<rparr>)\<rparr>)"
proof -
  let ?a = "m_active_video_stream st"
  let ?t = "video_template (flattened_video_streams st ! nat ?a)"
  from get_video_stream_flat [OF assms(1-3)] obtain i j where
    ij: "get_video_stream st ?a = Inr (int i, int j)"
      "i < length (m_media_objects st)" "j < length (video (m_media_objects st ! i))"
      "video (m_media_objects st ! i) ! j = flattened_video_streams st ! nat ?a"
    by blast
  have m: "media_object_at st (int i) = Inr (m_media_objects st ! i)"
    using ij(2) by (rule media_object_at_nth)
  have t: "media_object_video_frame_template (m_media_objects st ! i) (int j) = Inr ?t"
    using video_frame_template_nth [OF ij(3)] ij(4) by simp
  have ok: "stereo_layout_is_supported st l swap = Inr True"
    unfolding stereo_layout_is_supported_value [OF assms(1-3)]
    using assms(4,5) by (auto simp: layout_fits_def)
  show ?thesis
    unfolding set_stereo_layout_def
    by (simp only: ok ij(1) m t and_then_def sum.case prod.case Let_def assms(4) if_False
        not_True_eq_False)
qed

lemma select_video_stream_total:
  assumes "video_streams st = int (length (flattened_video_streams st))"
    and "0 \<le> v" and "v < video_streams st"
    and "stereo_layout (m_video_frame st) = separate
         \<or> layout_fits ((video_template (flattened_video_streams st ! nat v))
                          \<lparr>stereo_layout := stereo_layout (m_video_frame st)\<rparr>)"
  shows "\<exists>st'. select_video_stream ext st v = Inr st'
           \<and> m_active_video_stream st' = (if stereo_layout (m_video_frame st) = separate
                                          then m_active_video_stream st else v)"
proof (cases "stereo_layout (m_video_frame st) = separate")
  case True
  then show ?thesis
    using assms(2,3) by (simp add: select_video_stream_def)
next
  case False
  let ?l = "stereo_layout (m_video_frame st)"
  let ?swap = "stereo_layout_swap (m_video_frame st)"
  let ?st1 = "st\<lparr>m_active_video_stream := v\<rparr>"
  let ?st2 = "?st1\<lparr>m_video_frame :=
               set_view_dimensions ext
                 ((video_template (flattened_video_streams ?st1 ! nat (m_active_video_stream ?st1)))
                    \<lparr>stereo_layout := ?l, stereo_layout_swap := ?swap\<rparr>)\<rparr>"
  have t1: "video_streams ?st1 = int (length (flattened_video_streams ?st1))"
    "0 \<le> m_active_video_stream ?st1" "m_active_video_stream ?st1 < video_streams ?st1"
    using assms(1-3) by (simp_all add: video_streams_def flattened_video_streams_def)
  have fits: "layout_fits ((video_template (flattened_video_streams ?st1 ! nat (m_active_video_stream ?st1)))
                        \<lparr>stereo_layout := ?l\<rparr>)"
    using assms(4) False by (simp add: flattened_video_streams_def)
  have set: "set_stereo_layout ext ?st1 ?l ?swap = Inr ?st2"
    by (rule set_stereo_layout_value [OF t1 False fits])
  have t2: "video_streams ?st2 = int (length (flattened_video_streams ?st2))"
    "0 \<le> m_active_video_stream ?st2" "m_active_video_stream ?st2 < video_streams ?st2"
    using assms(1-3) by (simp_all add: video_streams_def flattened_video_streams_def)
  from get_video_stream_flat [OF t2] obtain i j where
    ij: "get_video_stream ?st2 (m_active_video_stream ?st2) = Inr (int i, int j)"
    by blast
  have "select_video_stream ext st v =
      Inr (?st2\<lparr>m_media_objects :=
                   map (\<lambda>k. set_video_streams_active (\<lambda>n. int k = int i \<and> int n = int j)
                              (m_media_objects ?st2 ! k))
                       [0..<length (m_media_objects ?st2)]\<rparr>)"
    unfolding select_video_stream_def Let_def
    using assms(2,3) False by (simp only: set ij and_then_def sum.case prod.case) simp
  then show ?thesis
    using False by auto
qed

lemma set_active_video_stream_total:
  assumes "video_streams st = int (length (flattened_video_streams st))"
    and "0 < video_streams st"
    and "layout_fits (video_template (flattened_video_streams st ! 0))"
  shows "\<exists>st'. set_active_video_stream ext st = Inr st' \<and> m_active_video_stream st' = 0"
proof -
  let ?st1 = "st\<lparr>m_active_video_stream := 0\<rparr>"
  let ?t = "video_template (flattened_video_streams st ! 0)"
  have t1: "video_streams ?st1 = int (length (flattened_video_streams ?st1))"
    "0 \<le> m_active_video_stream ?st1" "m_active_video_stream ?st1 < video_streams ?st1"
    using assms(1,2) by (simp_all add: video_streams_def flattened_video_streams_def)
  from get_video_stream_flat [OF t1] obtain i j where
    ij: "get_video_stream ?st1 (m_active_video_stream ?st1) = Inr (int i, int j)"
      "i < length (m_media_objects ?st1)" "j < length (video (m_media_objects ?st1 ! i))"
      "video (m_media_objects ?st1 ! i) ! j = flattened_video_streams ?st1 ! nat (m_active_video_stream ?st1)"
    by blast
  have m: "media_object_at ?st1 (int i) = Inr (m_media_objects ?st1 ! i)"
    using ij(2) by (rule media_object_at_nth)
  have t: "media_object_video_frame_template (m_media_objects ?st1 ! i) (int j) = Inr ?t"
    using video_frame_template_nth [OF ij(3)] ij(4) by (simp add: flattened_video_streams_def)
  define f where "f = (if m_supports_stereo_layout_separate st then ?t\<lparr>stereo_layout := separate\<rparr> else ?t)"
  let ?st2 = "?st1\<lparr>m_video_frame := f\<rparr>"
  have pos: "video_streams st > 0"
    by (rule assms(2))
  have run: "set_active_video_stream ext st = select_video_stream ext ?st2 0"
    unfolding set_active_video_stream_def Let_def
    by (simp only: ij(1) m t and_then_def sum.case prod.case pos if_True) (simp add: f_def)
  have t2: "video_streams ?st2 = int (length (flattened_video_streams ?st2))"
    "(0::int) \<le> 0" "0 < video_streams ?st2"
    using assms(1,2) by (simp_all add: video_streams_def flattened_video_streams_def)
  have fits: "stereo_layout (m_video_frame ?st2) = separate
         \<or> layout_fits ((video_template (flattened_video_streams ?st2 ! nat 0))
                          \<lparr>stereo_layout := stereo_layout (m_video_frame ?st2)\<rparr>)"
    using assms(3) by (simp add: f_def flattened_video_streams_def)
  from select_video_stream_total [OF t2 fits, of ext] show ?thesis
    unfolding run by auto
qed

lemma set_active_audio_stream_total:
  assumes "audio_streams st = int (length (flattened_audio_streams st))"
  shows "\<exists>st'. set_active_audio_stream st = Inr st'"
proof (cases "audio_streams st > 0")
  case False
  then show ?thesis
    by (simp add: set_active_audio_stream_def Let_def)
next
  case True
  let ?st1 = "st\<lparr>m_active_audio_stream := 0\<rparr>"
  have t1: "audio_streams ?st1 = int (length (flattened_audio_streams ?st1))"
    "0 \<le> m_active_audio_stream ?st1" "m_active_audio_stream ?st1 < audio_streams ?st1"
    using assms True by (simp_all add: audio_streams_def flattened_audio_streams_def)
  from get_audio_stream_flat [OF t1] obtain i j where
    ij: "get_audio_stream ?st1 (m_active_audio_stream ?st1) = Inr (int i, int j)"
      "i < length (m_media_objects ?st1)" "j < length (audio (m_media_objects ?st1 ! i))"
    by blast
  have m: "media_object_at ?st1 (int i) = Inr (m_media_objects ?st1 ! i)"
    using ij(2) by (rule media_object_at_nth)
  note t = audio_blob_template_nth [OF ij(3)]
  let ?st2 = "?st1\<lparr>m_audio_blob := audio_template (audio (m_media_objects ?st1 ! i) ! j)\<rparr>"
  have run: "set_active_audio_stream st = select_audio_stream ?st2 0"
    unfolding set_active_audio_stream_def Let_def
    using True by (simp only: ij(1) m t and_then_def sum.case prod.case if_True) simp
  have t2: "audio_streams ?st2 = int (length (flattened_audio_streams ?st2))"
    "0 \<le> m_active_audio_stream (?st2\<lparr>m_active_audio_stream := 0\<rparr>)"
    "m_active_audio_stream (?st2\<lparr>m_active_audio_stream := 0\<rparr>) < audio_streams (?st2\<lparr>m_active_audio_stream := 0\<rparr>)"
    "audio_streams (?st2\<lparr>m_active_audio_stream := 0\<rparr>)
       = int (length (flattened_audio_streams (?st2\<lparr>m_active_audio_stream := 0\<rparr>)))"
    using assms True by (simp_all add: audio_streams_def flattened_audio_streams_def)
  from get_audio_stream_flat [OF t2(4,2,3)] obtain i' j' where
    "get_audio_stream (?st2\<lparr>m_active_audio_stream := 0\<rparr>)
        (m_active_audio_stream (?st2\<lparr>m_active_audio_stream := 0\<rparr>)) = Inr (int i', int j')"
    by blast
  then have "\<exists>st'. select_audio_stream ?st2 0 = Inr st'"
    using True by (simp add: select_audio_stream_def Let_def and_then_def audio_streams_def)
  then show ?thesis
    unfolding run .
qed

lemma open_total:
  assumes "urls \<noteq> []"
    and "open_media_objects ext urls 0 (resize [] (length urls)) = Inr v"
    and "concat (map video v) \<noteq> []"
    and "layout_fits (video_template (concat (map video v) ! 0))"
  shows "\<exists>st. media_input_open ext (media_input_new b) urls = Inr st
           \<and> map source_contents (m_media_objects st) = map source_contents v"
proof -
  define st3 where
    "st3 = gather_metadata ext ((media_input_new b)\<lparr>m_media_objects := v, m_id := construct_id v\<rparr>)"
  define st6 where "st6 = st3\<lparr>m_video_stream_names :=
                                gather_video_stream_names ext (m_media_objects st3) (m_video_stream_names st3),
                             m_audio_stream_names :=
                                gather_audio_stream_names ext (m_media_objects st3) (m_audio_stream_names st3),
                             m_duration := set_duration (m_media_objects st3)\<rparr>"
  have st3: "m_media_objects st3 = v" "m_video_stream_names st3 = []" "m_audio_stream_names st3 = []"
    unfolding st3_def
    by (subst gather_metadata_contents, simp add: media_input_new_def)+
  have tags3: "length (m_tag_values st3) = length (m_tag_names st3)"
    unfolding st3_def by (rule gather_metadata_lengths) (simp add: media_input_new_def)
  have empty: "m_media_objects (media_input_new b) = []"
    by (simp add: media_input_new_def)
  have run: "media_input_open ext (media_input_new b) urls =
      and_then (set_initial_skip ext st6) (\<lambda>st7.
      and_then (find_stereo_layout st7) (\<lambda>st8.
      and_then (set_active_video_stream ext st8) (\<lambda>st9.
      and_then (set_active_audio_stream st9) (\<lambda>st10.
      and_then (print_summary st10) (\<lambda>u. Inr st10)))))"
    unfolding media_input_open_def empty assms(2) st6_def st3_def
    using assms(1) by (simp add: Let_def)
  have m6: "tables_match st6"
    by (simp add: tables_match_flat st6_def st3 video_streams_def audio_streams_def
        flattened_video_streams_def flattened_audio_streams_def length_gather_video_stream_names
        length_gather_audio_stream_names)
  have o6: "m_media_objects st6 = v"
    by (simp add: st6_def st3)
  have tags6: "length (m_tag_values st6) = length (m_tag_names st6)"
    using tags3 by (simp add: st6_def)
  from set_initial_skip_total [OF tags6] obtain st7 where p7: "set_initial_skip ext st6 = Inr st7"
    by blast
  note e7 = set_initial_skip_keeps [OF p7]
  have m7: "tables_match st7"
    using m6 by (simp add: tables_match_def video_streams_def audio_streams_def e7)
  have o7: "m_media_objects st7 = v"
    by (simp only: e7(1) o6)
  from m7 have "video_streams st7 = int (length (flattened_video_streams st7))"
    by (simp add: tables_match_flat)
  from find_stereo_layout_total [OF this] obtain st8 where p8: "find_stereo_layout st7 = Inr st8"
    by blast
  note e8 = find_stereo_layout_keeps [OF p8]
  have m8: "tables_match st8"
    using m7 by (simp add: tables_match_def video_streams_def audio_streams_def e8)
  have o8: "m_media_objects st8 = v"
    by (simp only: e8(1) o7)
  from m8 have t8: "video_streams st8 = int (length (flattened_video_streams st8))"
    by (simp add: tables_match_flat)
  have pos8: "0 < video_streams st8"
    unfolding t8 using assms(3) by (simp add: flattened_video_streams_def o8)
  have fits8: "layout_fits (video_template (flattened_video_streams st8 ! 0))"
    using assms(4) by (simp add: flattened_video_streams_def o8)
  from set_active_video_stream_total [OF t8 pos8 fits8] obtain st9 where
    p9: "set_active_video_stream ext st8 = Inr st9" and a9: "m_active_video_stream st9 = 0"
    by blast
  note e9 = set_active_video_stream_keeps [OF p9]
  have m9: "tables_match st9"
    using m8 tables_match_kept [OF e9(1,2,5)] by simp
  from m9 have "audio_streams st9 = int (length (flattened_audio_streams st9))"
    by (simp add: tables_match_flat)
  from set_active_audio_stream_total [OF this] obtain st10 where
    p10: "set_active_audio_stream st9 = Inr st10"
    by blast
  note e10 = set_active_audio_stream_keeps [OF p10]
  have m10: "tables_match st10"
    using m9 tables_match_kept [OF e10(1,2,6)] by simp
  have a10: "0 \<le> m_active_video_stream st10"
    by (simp add: e10(5) a9)
  have p11: "print_summary st10 = Inr ()"
    using m10 a10 by (rule print_summary_total)
  have "media_input_open ext (media_input_new b) urls = Inr st10"
    unfolding run by (simp only: p7 p8 p9 p10 p11 and_then_def sum.case)
  moreover have "map source_contents (m_media_objects st10) = map source_contents v"
    by (simp only: e10(6) e9(5) o8)
  ultimately show ?thesis
    by blast
qed

lemma late_audio_opened:
  "example_urls \<noteq> []"
  "open_media_objects late_audio_externals example_urls 0 (resize [] (length example_urls))
     = Inr [silent_source, sound_source]"
  "concat (map video [silent_source, sound_source]) \<noteq> []"
  "layout_fits (video_template (concat (map video [silent_source, sound_source]) ! 0))"
  "map media_object_video_streams [silent_source, sound_source] = [1, 1]"
  "map media_object_audio_streams [silent_source, sound_source] = [0, 1]"
  by (simp_all add: example_urls_def late_audio_externals_def example_externals_def resize_def
      silent_source_def sound_source_def left_source_def right_source_def left_video_def
      example_template_def layout_fits_def media_object_video_streams_def
      media_object_audio_streams_def)

text \<open>
  C1: after \<^verbatim>\<open>open\<close> on a freshly constructed input, the flattened video (audio) stream
  count is the sum of the video (audio) stream counts of the sources, and
  \<^verbatim>\<open>get_video_stream\<close> (\<^verbatim>\<open>get_audio_stream\<close>) maps the global indices from 0 up to the count,
  in order, to the pairs (source index, local stream index) in source order and, within a
  source, in the order of the local index; it is a bijection between the two. The resolvers
  do so in every state whose count is that sum, and \<^verbatim>\<open>open\<close> does succeed, on sources with
  the same stream counts as those opened, whenever every source opens, there is a video
  stream, and the stereo layout of the first one fits its raw dimensions.
\<close>

theorem flattened_stream_tables:
  "(media_input_open ext (media_input_new b) urls = Inr st \<longrightarrow>
      video_streams st = sum_list (map media_object_video_streams (m_media_objects st))
      \<and> audio_streams st = sum_list (map media_object_audio_streams (m_media_objects st))
      \<and> map (\<lambda>g. get_video_stream st (int g)) [0..<nat (video_streams st)]
          = map Inr (stream_pairs (map media_object_video_streams (m_media_objects st)))
      \<and> map (\<lambda>g. get_audio_stream st (int g)) [0..<nat (audio_streams st)]
          = map Inr (stream_pairs (map media_object_audio_streams (m_media_objects st)))
      \<and> bij_betw (get_video_stream st) {0..<video_streams st}
           (Inr ` set (stream_pairs (map media_object_video_streams (m_media_objects st))))
      \<and> bij_betw (get_audio_stream st) {0..<audio_streams st}
           (Inr ` set (stream_pairs (map media_object_audio_streams (m_media_objects st)))))
   \<and> (video_streams st' = sum_list (map media_object_video_streams (m_media_objects st')) \<longrightarrow>
      map (\<lambda>g. get_video_stream st' (int g)) [0..<nat (video_streams st')]
          = map Inr (stream_pairs (map media_object_video_streams (m_media_objects st')))
      \<and> bij_betw (get_video_stream st') {0..<video_streams st'}
           (Inr ` set (stream_pairs (map media_object_video_streams (m_media_objects st')))))
   \<and> (audio_streams st' = sum_list (map media_object_audio_streams (m_media_objects st')) \<longrightarrow>
      map (\<lambda>g. get_audio_stream st' (int g)) [0..<nat (audio_streams st')]
          = map Inr (stream_pairs (map media_object_audio_streams (m_media_objects st')))
      \<and> bij_betw (get_audio_stream st') {0..<audio_streams st'}
           (Inr ` set (stream_pairs (map media_object_audio_streams (m_media_objects st')))))
   \<and> (urls \<noteq> [] \<and> open_media_objects ext urls 0 (resize [] (length urls)) = Inr v
        \<and> concat (map video v) \<noteq> []
        \<and> layout_fits (video_template (concat (map video v) ! 0)) \<longrightarrow>
      (\<exists>st''. media_input_open ext (media_input_new b) urls = Inr st''
          \<and> map media_object_video_streams (m_media_objects st'') = map media_object_video_streams v
          \<and> map media_object_audio_streams (m_media_objects st'') = map media_object_audio_streams v))"
proof (intro conjI impI)
  assume opened: "media_input_open ext (media_input_new b) urls = Inr st"
  obtain w where
    c: "map source_contents (m_media_objects st) = map source_contents w"
    and vn: "m_video_stream_names st = gather_video_stream_names ext w []"
    and an: "m_audio_stream_names st = gather_audio_stream_names ext w []"
    by (rule open_new [OF opened])
  show video: "video_streams st = sum_list (map media_object_video_streams (m_media_objects st))"
    unfolding contents_video_counts [OF c] sum_video_counts
    by (simp add: video_streams_def vn length_gather_video_stream_names)
  show audio: "audio_streams st = sum_list (map media_object_audio_streams (m_media_objects st))"
    unfolding contents_audio_counts [OF c] sum_audio_counts
    by (simp add: audio_streams_def an length_gather_audio_stream_names)
  show ev: "map (\<lambda>g. get_video_stream st (int g)) [0..<nat (video_streams st)]
          = map Inr (stream_pairs (map media_object_video_streams (m_media_objects st)))"
    by (rule get_video_stream_enumerates [OF video])
  show ea: "map (\<lambda>g. get_audio_stream st (int g)) [0..<nat (audio_streams st)]
          = map Inr (stream_pairs (map media_object_audio_streams (m_media_objects st)))"
    by (rule get_audio_stream_enumerates [OF audio])
  show "bij_betw (get_video_stream st) {0..<video_streams st}
          (Inr ` set (stream_pairs (map media_object_video_streams (m_media_objects st))))"
    using ev by (rule enumeration_bijection) (simp add: video_streams_def)
  show "bij_betw (get_audio_stream st) {0..<audio_streams st}
          (Inr ` set (stream_pairs (map media_object_audio_streams (m_media_objects st))))"
    using ea by (rule enumeration_bijection) (simp add: audio_streams_def)
next
  assume video: "video_streams st' = sum_list (map media_object_video_streams (m_media_objects st'))"
  show ev: "map (\<lambda>g. get_video_stream st' (int g)) [0..<nat (video_streams st')]
          = map Inr (stream_pairs (map media_object_video_streams (m_media_objects st')))"
    by (rule get_video_stream_enumerates [OF video])
  show "bij_betw (get_video_stream st') {0..<video_streams st'}
          (Inr ` set (stream_pairs (map media_object_video_streams (m_media_objects st'))))"
    using ev by (rule enumeration_bijection) (simp add: video_streams_def)
next
  assume audio: "audio_streams st' = sum_list (map media_object_audio_streams (m_media_objects st'))"
  show ea: "map (\<lambda>g. get_audio_stream st' (int g)) [0..<nat (audio_streams st')]
          = map Inr (stream_pairs (map media_object_audio_streams (m_media_objects st')))"
    by (rule get_audio_stream_enumerates [OF audio])
  show "bij_betw (get_audio_stream st') {0..<audio_streams st'}
          (Inr ` set (stream_pairs (map media_object_audio_streams (m_media_objects st'))))"
    using ea by (rule enumeration_bijection) (simp add: audio_streams_def)
next
  assume h: "urls \<noteq> [] \<and> open_media_objects ext urls 0 (resize [] (length urls)) = Inr v
        \<and> concat (map video v) \<noteq> []
        \<and> layout_fits (video_template (concat (map video v) ! 0))"
  then have "urls \<noteq> []" "open_media_objects ext urls 0 (resize [] (length urls)) = Inr v"
    "concat (map video v) \<noteq> []" "layout_fits (video_template (concat (map video v) ! 0))"
    by blast+
  from open_total [OF this, of b] obtain st'' where
    "media_input_open ext (media_input_new b) urls = Inr st''"
    and c: "map source_contents (m_media_objects st'') = map source_contents v"
    by blast
  then show "\<exists>st''. media_input_open ext (media_input_new b) urls = Inr st''
          \<and> map media_object_video_streams (m_media_objects st'') = map media_object_video_streams v
          \<and> map media_object_audio_streams (m_media_objects st'') = map media_object_audio_streams v"
    using contents_video_counts [OF c] contents_audio_counts [OF c] by blast
qed

theorem flattened_stream_tables_witness:
  "\<exists>st. media_input_open late_audio_externals (media_input_new False) example_urls = Inr st
      \<and> video_streams st = 2 \<and> audio_streams st = 1
      \<and> map (\<lambda>g. get_video_stream st (int g)) [0..<nat (video_streams st)]
          = [Inr (0, 0), Inr (1, 0)]
      \<and> map (\<lambda>g. get_audio_stream st (int g)) [0..<nat (audio_streams st)] = [Inr (1, 0)]
      \<and> bij_betw (get_video_stream st) {0..<video_streams st} {Inr (0, 0), Inr (1, 0)}
      \<and> bij_betw (get_audio_stream st) {0..<audio_streams st} {Inr (1, 0)}"
proof -
  have sp: "stream_pairs [1, 1] = [(0, 0), (1, 0)]" "stream_pairs [0, 1] = [(1, 0)]"
    by (simp_all add: stream_pairs_def)
  have sources: "example_urls \<noteq> []
      \<and> open_media_objects late_audio_externals example_urls 0 (resize [] (length example_urls))
          = Inr [silent_source, sound_source]
      \<and> concat (map video [silent_source, sound_source]) \<noteq> []
      \<and> layout_fits (video_template (concat (map video [silent_source, sound_source]) ! 0))"
    by (intro conjI) (rule late_audio_opened)+
  note total = flattened_stream_tables
    [of late_audio_externals False example_urls "media_input_new False" "media_input_new False"
      "[silent_source, sound_source]",
      THEN conjunct2, THEN conjunct2, THEN conjunct2, rule_format, OF sources,
      unfolded late_audio_opened(5,6)]
  from total obtain st where
    opened: "media_input_open late_audio_externals (media_input_new False) example_urls = Inr st"
    and cv: "map media_object_video_streams (m_media_objects st) = [1, 1]"
    and ca: "map media_object_audio_streams (m_media_objects st) = [0, 1]"
    by (elim exE conjE)
  note tables = flattened_stream_tables
    [of late_audio_externals False example_urls st st "[silent_source, sound_source]",
      THEN conjunct1, rule_format, OF opened, unfolded cv ca sp]
  from tables have v2: "video_streams st = 2"
    by simp
  from tables have a1: "audio_streams st = 1"
    by simp
  show ?thesis
    by (rule exI [of _ st]) (use tables opened in \<open>simp add: v2 a1\<close>)
qed

section \<open>Duration\<close>

lemma fold_nth: "fold (\<lambda>j. g (xs ! j)) [0..<length xs] = fold g xs"
proof -
  have "fold g xs = fold g (map (\<lambda>j. xs ! j) [0..<length xs])"
    by (simp add: map_nth)
  also have "\<dots> = fold (g \<circ> (\<lambda>j. xs ! j)) [0..<length xs]"
    by (rule fold_map)
  finally show ?thesis
    by (simp add: comp_def)
qed

lemma set_duration_fold:
  "set_duration v =
     fold lower_duration
       (concat (map (\<lambda>m. map video_duration_us (video m) @ map audio_duration_us (audio m)) v))
       int64_max"
proof -
  have vid: "fold (\<lambda>j cur'. lower_duration (video_duration_us (video m ! j)) cur')
               [0..<nat (media_object_video_streams m)]
             = fold lower_duration (map video_duration_us (video m))" for m
    using fold_nth [of "\<lambda>s. lower_duration (video_duration_us s)" "video m"]
    by (simp add: media_object_video_streams_def fold_map comp_def)
  have aud: "fold (\<lambda>j cur'. lower_duration (audio_duration_us (audio m ! j)) cur')
               [0..<nat (media_object_audio_streams m)]
             = fold lower_duration (map audio_duration_us (audio m))" for m
    using fold_nth [of "\<lambda>s. lower_duration (audio_duration_us s)" "audio m"]
    by (simp add: media_object_audio_streams_def fold_map comp_def)
  have source: "fold lower_duration (map audio_duration_us (audio m))
                  (fold lower_duration (map video_duration_us (video m)) cur)
                = fold lower_duration (map video_duration_us (video m) @ map audio_duration_us (audio m)) cur"
    for m cur
    by simp
  have all: "fold (\<lambda>m. fold lower_duration (ds m)) w c = fold lower_duration (concat (map ds w)) c"
    for ds :: "media_object \<Rightarrow> int64 list" and w c
    by (induction w arbitrary: c) simp_all
  have "set_duration v =
      fold (\<lambda>i. fold lower_duration
                  (map video_duration_us (video (v ! i)) @ map audio_duration_us (audio (v ! i))))
           [0..<length v] int64_max"
    unfolding set_duration_def vid aud source ..
  also have "\<dots> = fold (\<lambda>m. fold lower_duration
                  (map video_duration_us (video m) @ map audio_duration_us (audio m))) v int64_max"
    using fold_nth [of "\<lambda>m. fold lower_duration
                  (map video_duration_us (video m) @ map audio_duration_us (audio m))" v]
    by simp
  finally show ?thesis
    by (simp only: all)
qed

lemma fold_lower_duration:
  "sint (fold lower_duration ds c) = Min (insert (sint c) (sint ` set ds))"
proof (induction ds arbitrary: c)
  case Nil
  show ?case by simp
next
  case (Cons d ds)
  have step: "sint (lower_duration d c) = min (sint d) (sint c)"
    by (simp add: lower_duration_def word_sless_alt min_def)
  have "Min (insert (min x y) S) = Min (insert y (insert x S))" if "finite S"
    for x y :: int and S
    using that by (cases "S = {}") (simp_all add: min.commute min.left_commute)
  from this [of "sint ` set ds" "sint d" "sint c"] show ?case
    by (simp add: Cons.IH step)
qed

lemma int64_max_greatest: "sint (d :: int64) \<le> sint int64_max"
proof -
  have "sint d < 2 ^ (LENGTH(64) - 1)"
    by (rule sint_lt)
  then show ?thesis
    by (simp add: int64_max_def)
qed

lemma minimum_duration:
  assumes "ds \<noteq> []"
  shows "sint (fold lower_duration ds int64_max) = Min (sint ` set ds)"
proof -
  from assms obtain d where "d \<in> set ds"
    by (cases ds) auto
  then have "Min (sint ` set ds) \<le> sint d"
    by simp
  also have "\<dots> \<le> sint int64_max"
    by (rule int64_max_greatest)
  finally have le: "Min (sint ` set ds) \<le> sint int64_max" .
  have "Min (insert (sint int64_max) (sint ` set ds)) = min (sint int64_max) (Min (sint ` set ds))"
    by (rule Min_insert) (simp_all add: assms)
  also have "\<dots> = Min (sint ` set ds)"
    using le by (rule min_absorb2)
  finally show ?thesis
    by (simp only: fold_lower_duration)
qed

text \<open>
  C2: after \<^verbatim>\<open>open\<close> succeeds, the duration is the minimum (of the signed 64-bit values) of
  the durations of every video stream and every audio stream of every source, whichever
  streams are active; when these durations are 10 seconds and 7 seconds, the duration is
  7000000 microseconds.
\<close>

theorem duration_is_minimum:
  assumes "media_input_open ext (media_input_new b) urls = Inr st"
  shows "sint (m_duration st) = Min (sint ` set (stream_durations st))
     \<and> (sint ` set (stream_durations st) = {10000000, 7000000} \<longrightarrow> m_duration st = 7000000)"
proof -
  obtain v where
    c: "map source_contents (m_media_objects st) = map source_contents v"
    and vn: "m_video_stream_names st = gather_video_stream_names ext v []"
    and d: "m_duration st = set_duration v"
    and pos: "0 < video_streams st"
    by (rule open_new [OF assms])
  have ds: "stream_durations st
      = concat (map (\<lambda>m. map video_duration_us (video m) @ map audio_duration_us (audio m)) v)"
    unfolding stream_durations_def contents_durations [OF c] ..
  have "video_streams st = sum_list (map media_object_video_streams (m_media_objects st))"
    unfolding contents_video_counts [OF c] sum_video_counts
    by (simp add: video_streams_def vn length_gather_video_stream_names)
  with pos have "concat (map video (m_media_objects st)) \<noteq> []"
    by (auto simp: sum_video_counts)
  then have nonempty: "stream_durations st \<noteq> []"
    by (auto simp: stream_durations_def)
  have min: "sint (m_duration st) = Min (sint ` set (stream_durations st))"
    using minimum_duration [OF nonempty] by (simp add: d set_duration_fold ds)
  have "m_duration st = 7000000" if "sint ` set (stream_durations st) = {10000000, 7000000}"
  proof -
    have "sint (m_duration st) = sint (7000000 :: int64)"
      unfolding min that by simp
    then show ?thesis
      by (rule signed_word_eqI)
  qed
  with min show ?thesis
    by blast
qed

theorem duration_is_minimum_witness:
  "sint ` set (stream_durations example_input) = {10000000, 7000000}
   \<and> sint (m_duration example_input) = Min {10000000, 7000000}
   \<and> m_duration example_input = 7000000"
proof -
  have "stream_durations example_input = [10000000, 10000000, 7000000]"
    by (simp add: stream_durations_def example_defs)
  then have ds: "sint ` set (stream_durations example_input) = {10000000, 7000000}"
    by simp
  from duration_is_minimum [OF example_open [of False]] ds show ?thesis
    by simp
qed

section \<open>Stereo pair detection\<close>

lemma float_le_ge_eq: "(float_le a b \<and> float_ge a b) = float_eq a b"
  by (cases a; cases b) (auto simp: float_ge_def float_eq_def)

lemma find_stereo_layout_flag:
  assumes "find_stereo_layout st = Inr st'"
    and "video_streams st = int (length (flattened_video_streams st))"
  shows "m_supports_stereo_layout_separate st' =
     (video_streams st = 2
      \<and> templates_agree (video_template (flattened_video_streams st ! 0))
                         (video_template (flattened_video_streams st ! 1)))"
proof (cases "video_streams st = 2")
  case False
  then show ?thesis
    using assms(1) by (auto simp: find_stereo_layout_def Let_def video_streams_def)
next
  case True
  let ?st1 = "st\<lparr>m_supports_stereo_layout_separate := False\<rparr>"
  let ?t0 = "video_template (flattened_video_streams st ! 0)"
  let ?t1 = "video_template (flattened_video_streams st ! 1)"
  have same: "get_video_stream ?st1 g = get_video_stream st g"
    "media_object_at ?st1 i = media_object_at st i" for g i
    by (simp_all add: get_video_stream_def video_streams_def media_object_at_def)
  from get_video_stream_flat [OF assms(2), of 0] True obtain i0 j0 where
    r0: "get_video_stream st 0 = Inr (int i0, int j0)"
      "i0 < length (m_media_objects st)" "j0 < length (video (m_media_objects st ! i0))"
      "video (m_media_objects st ! i0) ! j0 = flattened_video_streams st ! 0"
    by auto
  from get_video_stream_flat [OF assms(2), of 1] True obtain i1 j1 where
    r1: "get_video_stream st 1 = Inr (int i1, int j1)"
      "i1 < length (m_media_objects st)" "j1 < length (video (m_media_objects st ! i1))"
      "video (m_media_objects st ! i1) ! j1 = flattened_video_streams st ! 1"
    by auto
  have t0: "media_object_video_frame_template (m_media_objects st ! i0) (int j0) = Inr ?t0"
    using video_frame_template_nth [OF r0(3)] r0(4) by simp
  have t1: "media_object_video_frame_template (m_media_objects st ! i1) (int j1) = Inr ?t1"
    using video_frame_template_nth [OF r1(3)] r1(4) by simp
  have two: "video_streams ?st1 = 2"
    using True by (simp add: video_streams_def)
  have "find_stereo_layout st =
      (if width ?t0 = width ?t1 \<and> height ?t0 = height ?t1
          \<and> (float_le (aspect_ratio ?t0) (aspect_ratio ?t1) \<and> float_ge (aspect_ratio ?t0) (aspect_ratio ?t1))
          \<and> layout ?t0 = layout ?t1 \<and> color_space ?t0 = color_space ?t1
          \<and> value_range ?t0 = value_range ?t1 \<and> chroma_location ?t0 = chroma_location ?t1
       then Inr (?st1\<lparr>m_supports_stereo_layout_separate := True\<rparr>) else Inr ?st1)"
    unfolding find_stereo_layout_def Let_def
    by (simp only: two same r0(1) r1(1) media_object_at_nth [OF r0(2)] media_object_at_nth [OF r1(2)]
        t0 t1 and_then_def sum.case prod.case if_True simp_thms)
  with assms(1) True show ?thesis
    unfolding float_le_ge_eq templates_agree_def by (auto split: if_splits)
qed

text \<open>
  C3: \<^verbatim>\<open>open\<close> sets \<^verbatim>\<open>_supports_stereo_layout_separate\<close> to true if and only if there are
  exactly two flattened video streams and their templates have the same width, height,
  layout, color space, value range and chroma location and equal aspect ratios (equal as
  \<^verbatim>\<open>float\<close>s: a NaN is equal to nothing); in every other case it is false.
\<close>

theorem separate_stereo_detection:
  assumes "media_input_open ext (media_input_new b) urls = Inr st"
  shows "m_supports_stereo_layout_separate st =
     (video_streams st = 2
      \<and> templates_agree (video_template (flattened_video_streams st ! 0))
                         (video_template (flattened_video_streams st ! 1)))"
proof -
  obtain v st7 st8 where
    c: "map source_contents (m_media_objects st) = map source_contents v"
    and vn: "m_video_stream_names st = gather_video_stream_names ext v []"
    and v7: "m_media_objects st7 = v"
    and vn7: "m_video_stream_names st7 = gather_video_stream_names ext v []"
    and find: "find_stereo_layout st7 = Inr st8"
    and flag: "m_supports_stereo_layout_separate st = m_supports_stereo_layout_separate st8"
    by (rule open_new [OF assms])
  have table: "video_streams st7 = int (length (flattened_video_streams st7))"
    by (simp add: video_streams_def flattened_video_streams_def v7 vn7
        length_gather_video_stream_names)
  have count: "video_streams st7 = video_streams st"
    by (simp add: video_streams_def vn vn7)
  have templates: "map video_template (flattened_video_streams st)
      = map video_template (flattened_video_streams st7)"
    unfolding flattened_video_streams_def v7 by (rule contents_templates [OF c])
  then have len: "length (flattened_video_streams st) = length (flattened_video_streams st7)"
    by (rule map_eq_imp_length_eq)
  have nth: "video_template (flattened_video_streams st ! k)
      = video_template (flattened_video_streams st7 ! k)" if "k < length (flattened_video_streams st7)"
    for k
    using that len arg_cong [OF templates, of "\<lambda>xs. xs ! k"] by simp
  show ?thesis
  proof (cases "video_streams st = 2")
    case True
    then have "length (flattened_video_streams st7) = 2"
      using table count by simp
    then have "video_template (flattened_video_streams st ! 0)
        = video_template (flattened_video_streams st7 ! 0)"
      "video_template (flattened_video_streams st ! 1)
        = video_template (flattened_video_streams st7 ! 1)"
      by (simp_all add: nth)
    then show ?thesis
      unfolding flag find_stereo_layout_flag [OF find table] count by simp
  next
    case False
    then show ?thesis
      unfolding flag find_stereo_layout_flag [OF find table] count by simp
  qed
qed

theorem separate_stereo_detection_witness:
  "m_supports_stereo_layout_separate example_input
   \<and> video_streams example_input = 2
   \<and> templates_agree (video_template (flattened_video_streams example_input ! 0))
                      (video_template (flattened_video_streams example_input ! 1))"
proof -
  have "m_supports_stereo_layout_separate example_input"
    by (simp add: example_input_def)
  with separate_stereo_detection [OF example_open [of False]] show ?thesis
    by simp
qed

section \<open>A source that cannot be opened\<close>

lemma open_media_objects_fails:
  assumes "k < length us" and "media_object_open ext media_object_default (us ! k) = None"
    and "length v = i + length us"
    and "\<forall>n. i \<le> n \<and> n < length v \<longrightarrow> v ! n = media_object_default"
  shows "\<exists>v'. open_media_objects ext us i v = Inl v' \<and> length v' = length v"
  using assms
proof (induction us arbitrary: k i v)
  case Nil
  then show ?case by simp
next
  case (Cons u us)
  have here: "v ! i = media_object_default"
    using Cons.prems(3,4) by simp
  show ?case
  proof (cases "media_object_open ext (v ! i) u")
    case None
    then show ?thesis by simp
  next
    case (Some m)
    with here Cons.prems(2) obtain k' where k': "k = Suc k'"
      by (cases k) auto
    have "\<exists>v'. open_media_objects ext us (i + 1) (v[i := m]) = Inl v' \<and> length v' = length (v[i := m])"
    proof (rule Cons.IH [of k'])
      show "k' < length us"
        using Cons.prems(1) k' by simp
      show "media_object_open ext media_object_default (us ! k') = None"
        using Cons.prems(2) k' by simp
      show "length (v[i := m]) = i + 1 + length us"
        using Cons.prems(3) by simp
      show "\<forall>n. i + 1 \<le> n \<and> n < length (v[i := m]) \<longrightarrow> v[i := m] ! n = media_object_default"
        using Cons.prems(4) by simp
    qed
    with Some show ?thesis
      by simp
  qed
qed

text \<open>
  C8, as amended: if one of the sources cannot be opened, \<^verbatim>\<open>open\<close> on a freshly constructed
  input fails as a whole, with the failure of the source; the id, the tags, the stream
  tables, the active selections, the initial skip, the duration and the formats are as
  before \<^verbatim>\<open>open\<close>, and the vector of sources is left with one entry for each locator.
\<close>

theorem open_fails_when_a_source_fails:
  assumes "k < length urls"
    and "media_object_open ext media_object_default (urls ! k) = None"
  shows "\<exists>v. media_input_open ext (media_input_new b) urls
              = Inl (Source_open_failed ((media_input_new b)\<lparr>m_media_objects := v\<rparr>))
           \<and> length v = length urls"
proof -
  have empty: "m_media_objects (media_input_new b) = []"
    by (simp add: media_input_new_def)
  have "\<exists>v'. open_media_objects ext urls 0 (resize [] (length urls)) = Inl v'
           \<and> length v' = length (resize [] (length urls))"
    using assms by (rule open_media_objects_fails) (simp_all add: resize_def)
  then obtain v where
    "open_media_objects ext urls 0 (resize [] (length urls)) = Inl v" "length v = length urls"
    by (auto simp: resize_def)
  then show ?thesis
    using assms(1) by (auto simp: media_input_open_def empty)
qed

theorem open_fails_when_a_source_fails_witness:
  "\<exists>v. media_input_open example_externals (media_input_new False) [''d/left'', ''nope'']
          = Inl (Source_open_failed ((media_input_new False)\<lparr>m_media_objects := v\<rparr>))
       \<and> length v = 2"
proof -
  have "(1::nat) < length [''d/left'', ''nope'']"
    by simp
  moreover have "media_object_open example_externals media_object_default
                   ([''d/left'', ''nope''] ! 1) = None"
    by (simp add: example_externals_def)
  ultimately show ?thesis
    using open_fails_when_a_source_fails [of 1 "[''d/left'', ''nope'']" example_externals False]
    by (simp add: numeral_2_eq_2)
qed

text \<open>
  C8, as stated, fails: when the second of two sources cannot be opened, the instance, which
  had no source before \<^verbatim>\<open>open\<close>, is left with two, the first of them opened.
\<close>

theorem failed_open_keeps_sources:
  "media_input_open example_externals (media_input_new False) [''d/left'', ''nope'']
     = Inl (Source_open_failed
             ((media_input_new False)\<lparr>m_media_objects := [left_source, media_object_default]\<rparr>))
   \<and> m_media_objects (media_input_new False) = []
   \<and> m_media_objects
        ((media_input_new False)\<lparr>m_media_objects := [left_source, media_object_default]\<rparr>)
       = [left_source, media_object_default]
   \<and> (media_input_new False)\<lparr>m_media_objects := [left_source, media_object_default]\<rparr>
       \<noteq> media_input_new False"
proof -
  have "open_media_objects example_externals [''d/left'', ''nope''] 0 (resize [] 2)
          = Inl [left_source, media_object_default]"
    by (simp add: example_externals_def resize_def numeral_2_eq_2)
  moreover have "length [''d/left'', ''nope''] = 2"
    by simp
  moreover have "m_media_objects (media_input_new False) = []"
    by (simp add: media_input_new_def)
  ultimately have "media_input_open example_externals (media_input_new False) [''d/left'', ''nope'']
     = Inl (Source_open_failed
             ((media_input_new False)\<lparr>m_media_objects := [left_source, media_object_default]\<rparr>))"
    unfolding media_input_open_def by (simp only: sum.case) simp
  then show ?thesis
    by (simp add: media_input_new_def)
qed

end
